theory Spec2Isabelle
  imports Complex_Main "HOL-Library.Multiset"
begin


section \<open>Data model\<close>

text \<open>
  Timestamps are \<^verbatim>\<open>datetime\<close> values, counted here in microseconds (the resolution of
  \<^verbatim>\<open>datetime\<close>); a \<^verbatim>\<open>timedelta\<close> is the corresponding number of microseconds. Metric values are Python floats; they are read
  as the real numbers they denote, compared exactly as \<^verbatim>\<open>>=\<close> and \<^verbatim>\<open><=\<close> compare
  finite floats (NaN and the infinities are not values of the model).
\<close>

type_synonym timestamp = int

datatype py_error = TypeError | StoreError | OverflowError | ValidationError

definition hours :: "int \<Rightarrow> int" where
  "hours h = h * 3600000000"





text \<open>The four keys of every threshold table, \<^verbatim>\<open>'bajo'\<close> to \<^verbatim>\<open>'cr\'itico'\<close>.\<close>

datatype risk_level = Bajo | Medio | Alto | Critico

text \<open>
  One inner dictionary of \<^verbatim>\<open>DEFAULT_THRESHOLDS\<close>: its four keys are fixed, so it is a
  record, and \<^verbatim>\<open>thresholds[risk_level]\<close> is \<open>threshold_of\<close>.
\<close>

record tiers =
  bajo :: real
  medio :: real
  alto :: real
  critico :: real

fun threshold_of :: "tiers \<Rightarrow> risk_level \<Rightarrow> real" where
  "threshold_of t Bajo = bajo t"
| "threshold_of t Medio = medio t"
| "threshold_of t Alto = alto t"
| "threshold_of t Critico = critico t"

text \<open>\<^verbatim>\<open>self.thresholds\<close>: the outer dictionary, with its five fixed keys.\<close>

record thresholds =
  temperatura_alta :: tiers
  temperatura_baja :: tiers
  lluvia_intensa :: tiers
  viento_fuerte :: tiers
  humedad_alta :: tiers

definition DEFAULT_THRESHOLDS :: thresholds where
  "DEFAULT_THRESHOLDS =
     \<lparr>temperatura_alta = \<lparr>bajo = 30, medio = 35, alto = 40, critico = 45\<rparr>,
      temperatura_baja = \<lparr>bajo = 5, medio = 0, alto = -5, critico = -10\<rparr>,
      lluvia_intensa = \<lparr>bajo = 10, medio = 25, alto = 50, critico = 100\<rparr>,
      viento_fuerte = \<lparr>bajo = 20, medio = 35, alto = 50, critico = 75\<rparr>,
      humedad_alta = \<lparr>bajo = 80, medio = 90, alto = 95, critico = 98\<rparr>\<rparr>"

text \<open>
  The columns of \<^verbatim>\<open>WeatherData\<close> that the alert service reads. \<^verbatim>\<open>time\<close> is not
  nullable; the four metrics are.
\<close>

record weather_data =
  wd_id :: int
  wd_location_id :: int
  wd_time :: timestamp
  temperature_2m :: "real option"
  relativehumidity_2m :: "real option"
  rain :: "real option"
  windspeed_10m :: "real option"

text \<open>
  An f-string with one interpolated float, \<^verbatim>\<open>f"prefix{value}suffix"\<close>, kept as its three
  parts. Characters outside ASCII are written as their UTF-8 bytes.
\<close>

datatype fstring = FString string real string

definition degree_sign :: string where
  "degree_sign = [CHR 0xC2, CHR 0xB0]"

definition e_acute :: string where
  "e_acute = [CHR 0xC3, CHR 0xA9]"

definition i_acute :: string where
  "i_acute = [CHR 0xC3, CHR 0xAD]"

definition o_acute :: string where
  "o_acute = [CHR 0xC3, CHR 0xB3]"

text \<open>
  What the constructor call \<^verbatim>\<open>Alert(...)\<close> of the check functions sets: a candidate
  alert, not yet in the store.
\<close>

record candidate =
  location_id :: int
  weather_data_id :: int
  alert_type :: string
  risk_level :: risk_level
  severity :: string
  threshold_value :: real
  current_value :: real
  alert_start :: timestamp
  description :: fstring
  recommendations :: string

text \<open>
  An \<^verbatim>\<open>Alert\<close> object in the program: the candidate's attributes and the state the
  session gives the object. A new object is transient; \<^verbatim>\<open>db.add\<close> makes it pending; a
  commit makes a pending object persistent, with the \<^verbatim>\<open>id\<close> of its row; a rollback makes a
  pending object transient again.
\<close>

datatype object_state = Transient | Pending | Persistent int

record alert_object = candidate +
  object_state :: object_state

text \<open>
  A row of the \<^verbatim>\<open>alerts\<close> table: the candidate's columns and the columns the store
  fills in (\<^verbatim>\<open>id\<close>, \<^verbatim>\<open>alert_end\<close>, \<^verbatim>\<open>is_active\<close> with its default, \<^verbatim>\<open>created_at\<close>).
\<close>

record alert = candidate +
  alert_id :: int
  alert_end :: "timestamp option"
  is_active :: bool
  created_at :: timestamp

record location =
  loc_id :: int
  name :: string
  latitude :: real
  longitude :: real


section \<open>Rule evaluation\<close>

definition get_temperature_recommendations :: "real \<Rightarrow> string \<Rightarrow> string" where
  "get_temperature_recommendations temp type_temp =
     (if type_temp = ''alta'' then
        (if temp \<ge> 40 then
           ''Evite la exposici'' @ o_acute @ ''n directa al sol. Mant'' @ e_acute @ ''ngase hidratado.''
         else if temp \<ge> 35 then ''Limite actividades al aire libre. Use ropa ligera.''
         else ''Use protector solar. Mant'' @ e_acute @ ''ngase hidratado.'')
      else ''Use ropa apropiada para el fr'' @ i_acute @ ''o.'')"

text \<open>
  The five check functions. Each reads its metric from the observation (comparing
  \<^verbatim>\<open>None\<close> with a float raises \<^verbatim>\<open>TypeError\<close>), runs the \<^verbatim>\<open>if\<close>/\<^verbatim>\<open>elif\<close> chain, and
  builds the candidate with \<^verbatim>\<open>alert_start=datetime.now()\<close>; \<open>now\<close> is that reading of
  the clock.
\<close>

definition check_temperature_high ::
  "thresholds \<Rightarrow> timestamp \<Rightarrow> weather_data \<Rightarrow> py_error + alert_object option" where
  "check_temperature_high self now wd =
     (case temperature_2m wd of
        None \<Rightarrow> Inl TypeError
      | Some temp \<Rightarrow>
          (let th = temperatura_alta self;
               level = (if temp \<ge> critico th then Some Critico
                        else if temp \<ge> alto th then Some Alto
                        else if temp \<ge> medio th then Some Medio
                        else if temp \<ge> bajo th then Some Bajo
                        else None)
           in case level of
                None \<Rightarrow> Inr None
              | Some r \<Rightarrow> Inr (Some
                  \<lparr>location_id = wd_location_id wd,
                   weather_data_id = wd_id wd,
                   alert_type = ''temperatura_alta'',
                   risk_level = r,
                   severity = (if r \<in> set [Bajo, Medio] then ''warning'' else ''advisory''),
                   threshold_value = threshold_of th r,
                   current_value = temp,
                   alert_start = now,
                   description = FString ''Temperatura alta detectada: '' temp (degree_sign @ ''C''),
                   recommendations = get_temperature_recommendations temp ''alta'',
                   object_state = Transient\<rparr>)))"

definition check_temperature_low ::
  "thresholds \<Rightarrow> timestamp \<Rightarrow> weather_data \<Rightarrow> py_error + alert_object option" where
  "check_temperature_low self now wd =
     (case temperature_2m wd of
        None \<Rightarrow> Inl TypeError
      | Some temp \<Rightarrow>
          (let th = temperatura_baja self;
               level = (if temp \<le> critico th then Some Critico
                        else if temp \<le> alto th then Some Alto
                        else if temp \<le> medio th then Some Medio
                        else if temp \<le> bajo th then Some Bajo
                        else None)
           in case level of
                None \<Rightarrow> Inr None
              | Some r \<Rightarrow> Inr (Some
                  \<lparr>location_id = wd_location_id wd,
                   weather_data_id = wd_id wd,
                   alert_type = ''temperatura_baja'',
                   risk_level = r,
                   severity = (if r \<in> set [Bajo, Medio] then ''warning'' else ''advisory''),
                   threshold_value = threshold_of th r,
                   current_value = temp,
                   alert_start = now,
                   description = FString ''Temperatura baja detectada: '' temp (degree_sign @ ''C''),
                   recommendations = get_temperature_recommendations temp ''baja'',
                   object_state = Transient\<rparr>)))"

definition check_heavy_rain ::
  "thresholds \<Rightarrow> timestamp \<Rightarrow> weather_data \<Rightarrow> py_error + alert_object option" where
  "check_heavy_rain self now wd =
     (case rain wd of
        None \<Rightarrow> Inl TypeError
      | Some rain_mm \<Rightarrow>
          (let th = lluvia_intensa self;
               level = (if rain_mm \<ge> critico th then Some Critico
                        else if rain_mm \<ge> alto th then Some Alto
                        else if rain_mm \<ge> medio th then Some Medio
                        else if rain_mm \<ge> bajo th then Some Bajo
                        else None)
           in case level of
                None \<Rightarrow> Inr None
              | Some r \<Rightarrow> Inr (Some
                  \<lparr>location_id = wd_location_id wd,
                   weather_data_id = wd_id wd,
                   alert_type = ''lluvia_intensa'',
                   risk_level = r,
                   severity = (if r \<in> set [Alto, Critico] then ''watch'' else ''warning''),
                   threshold_value = threshold_of th r,
                   current_value = rain_mm,
                   alert_start = now,
                   description = FString ''Lluvia intensa detectada: '' rain_mm ''mm'',
                   recommendations =
                     ''Evitar viajes innecesarios. Mant'' @ e_acute @ ''ngase en lugares seguros.'',
                   object_state = Transient\<rparr>)))"

definition check_strong_wind ::
  "thresholds \<Rightarrow> timestamp \<Rightarrow> weather_data \<Rightarrow> py_error + alert_object option" where
  "check_strong_wind self now wd =
     (case windspeed_10m wd of
        None \<Rightarrow> Inl TypeError
      | Some wind_speed \<Rightarrow>
          (let th = viento_fuerte self;
               level = (if wind_speed \<ge> critico th then Some Critico
                        else if wind_speed \<ge> alto th then Some Alto
                        else if wind_speed \<ge> medio th then Some Medio
                        else if wind_speed \<ge> bajo th then Some Bajo
                        else None)
           in case level of
                None \<Rightarrow> Inr None
              | Some r \<Rightarrow> Inr (Some
                  \<lparr>location_id = wd_location_id wd,
                   weather_data_id = wd_id wd,
                   alert_type = ''viento_fuerte'',
                   risk_level = r,
                   severity = (if r \<in> set [Alto, Critico] then ''advisory'' else ''warning''),
                   threshold_value = threshold_of th r,
                   current_value = wind_speed,
                   alert_start = now,
                   description = FString ''Viento fuerte detectado: '' wind_speed ''m/s'',
                   recommendations =
                     ''Evitar actividades al aire libre. Asegurar objetos sueltos.'',
                   object_state = Transient\<rparr>)))"

definition check_high_humidity ::
  "thresholds \<Rightarrow> timestamp \<Rightarrow> weather_data \<Rightarrow> py_error + alert_object option" where
  "check_high_humidity self now wd =
     (case relativehumidity_2m wd of
        None \<Rightarrow> Inl TypeError
      | Some humidity \<Rightarrow>
          (let th = humedad_alta self;
               level = (if humidity \<ge> critico th then Some Critico
                        else if humidity \<ge> alto th then Some Alto
                        else if humidity \<ge> medio th then Some Medio
                        else if humidity \<ge> bajo th then Some Bajo
                        else None)
           in case level of
                None \<Rightarrow> Inr None
              | Some r \<Rightarrow> Inr (Some
                  \<lparr>location_id = wd_location_id wd,
                   weather_data_id = wd_id wd,
                   alert_type = ''humedad_alta'',
                   risk_level = r,
                   severity = ''info'',
                   threshold_value = threshold_of th r,
                   current_value = humidity,
                   alert_start = now,
                   description = FString ''Humedad alta detectada: '' humidity ''%'',
                   recommendations =
                     ''Mant'' @ e_acute @ ''ngase hidratado. Busque lugares con ventilaci'' @ o_acute @ ''n.'',
                   object_state = Transient\<rparr>)))"

section \<open>The store\<close>

text \<open>
  The SQLAlchemy session: the committed rows of the \<^verbatim>\<open>alerts\<close> and \<^verbatim>\<open>locations\<close> tables
  in the store's own row order, the next value of the \<^verbatim>\<open>alerts.id\<close> sequence, and the
  attributes of the objects handed to \<^verbatim>\<open>db.add\<close> and not yet committed. The session is
  made with
  \<^verbatim>\<open>autoflush=False\<close>, so a query reads the committed rows only.
\<close>

record session =
  alerts_tbl :: "alert list"
  locations_tbl :: "location list"
  next_id :: int
  pending :: "candidate list"

definition db_add :: "alert_object \<Rightarrow> session \<Rightarrow> session" where
  "db_add a db = db\<lparr>pending := pending db @ [candidate.truncate a]\<rparr>"

definition db_rollback :: "session \<Rightarrow> session" where
  "db_rollback db = db\<lparr>pending := []\<rparr>"

text \<open>
  The INSERT of one pending object: the store assigns \<^verbatim>\<open>id\<close>, the column default
  \<^verbatim>\<open>is_active = True\<close>, no \<^verbatim>\<open>alert_end\<close>, and \<^verbatim>\<open>created_at\<close> from its clock.
\<close>

definition insert_row :: "timestamp \<Rightarrow> int \<Rightarrow> candidate \<Rightarrow> alert" where
  "insert_row now i c =
     \<lparr>location_id = location_id c,
      weather_data_id = weather_data_id c,
      alert_type = alert_type c,
      risk_level = risk_level c,
      severity = severity c,
      threshold_value = threshold_value c,
      current_value = current_value c,
      alert_start = alert_start c,
      description = description c,
      recommendations = recommendations c,
      alert_id = i,
      alert_end = None,
      is_active = True,
      created_at = now\<rparr>"

fun insert_rows :: "timestamp \<Rightarrow> int \<Rightarrow> candidate list \<Rightarrow> alert list" where
  "insert_rows now i [] = []"
| "insert_rows now i (c # cs) = insert_row now i c # insert_rows now (i + 1) cs"

definition db_commit :: "timestamp \<Rightarrow> session \<Rightarrow> session" where
  "db_commit now db =
     db\<lparr>alerts_tbl := alerts_tbl db @ insert_rows now (next_id db) (pending db),
        next_id := next_id db + int (length (pending db)),
        pending := []\<rparr>"

text \<open>
  A store round trip (a query or a commit) may raise. \<open>fault\<close> says which round trip of
  a service call does: \<open>Some k\<close> when the \<open>k\<close>-th one (from 0) raises, \<open>None\<close> when the
  store answers every time. A call leaves its \<^verbatim>\<open>try\<close> block at the first exception, so
  one index describes every run. \<^verbatim>\<open>db.rollback()\<close> itself is taken not to raise.
\<close>

type_synonym fault = "nat option"

section \<open>\<^verbatim>\<open>evaluate_weather_data\<close>\<close>

text \<open>
  The body of the \<^verbatim>\<open>try\<close> block works on the local list \<^verbatim>\<open>alerts\<close>. A step returns the
  list as it leaves it and the exception in flight, if any; \<open>run_steps\<close> runs steps in
  order and stops at the first exception.
\<close>

type_synonym 'a step = "'a \<Rightarrow> 'a \<times> py_error option"

fun run_steps :: "'a step list \<Rightarrow> 'a step" where
  "run_steps [] s = (s, None)"
| "run_steps (f # fs) s =
     (case f s of
        (s', None) \<Rightarrow> run_steps fs s'
      | (s', Some e) \<Rightarrow> (s', Some e))"

text \<open>\<^verbatim>\<open>alert = self._check_...(weather_data); if alert: alerts.append(alert)\<close>\<close>

definition append_alert :: "py_error + alert_object option \<Rightarrow> alert_object list step" where
  "append_alert r alerts =
     (case r of
        Inl e \<Rightarrow> (alerts, Some e)
      | Inr None \<Rightarrow> (alerts, None)
      | Inr (Some a) \<Rightarrow> (alerts @ [a], None))"

definition evaluate_rules ::
  "thresholds \<Rightarrow> timestamp \<Rightarrow> weather_data \<Rightarrow> alert_object list step" where
  "evaluate_rules self now wd =
     run_steps
       [\<lambda>alerts. if temperature_2m wd \<noteq> None
                 then run_steps [append_alert (check_temperature_high self now wd),
                                 append_alert (check_temperature_low self now wd)] alerts
                 else (alerts, None),
        \<lambda>alerts. if rain wd \<noteq> None
                 then append_alert (check_heavy_rain self now wd) alerts
                 else (alerts, None),
        \<lambda>alerts. if windspeed_10m wd \<noteq> None
                 then append_alert (check_strong_wind self now wd) alerts
                 else (alerts, None),
        \<lambda>alerts. if relativehumidity_2m wd \<noteq> None
                 then append_alert (check_high_humidity self now wd) alerts
                 else (alerts, None)]"

text \<open>
  The query of the loop: the first committed alert of the candidate's location and type
  that is active and started at or after \<^verbatim>\<open>datetime.now() - timedelta(hours=24)\<close>.
\<close>

definition existing_alert :: "timestamp \<Rightarrow> session \<Rightarrow> alert_object \<Rightarrow> alert option" where
  "existing_alert now db a =
     find (\<lambda>x. location_id x = location_id a \<and> alert_type x = alert_type a
               \<and> is_active x = True \<and> alert_start x \<ge> now - hours 24)
          (alerts_tbl db)"

text \<open>
  The loop \<^verbatim>\<open>for alert in alerts\<close>: the query for the \<open>k\<close>-th candidate is round trip
  \<open>k\<close> of the call. The state is the session and the objects the loop has passed, in the
  state the loop left them in: \<^verbatim>\<open>db.add(alert)\<close> makes the object pending.
\<close>

fun save_alerts ::
  "timestamp \<Rightarrow> fault \<Rightarrow> nat \<Rightarrow> alert_object list \<Rightarrow> (session \<times> alert_object list) step" where
  "save_alerts now fault k [] (db, seen) = ((db, seen), None)"
| "save_alerts now fault k (a # as) (db, seen) =
     (if fault = Some k then ((db, seen @ a # as), Some StoreError)
      else case existing_alert now db a of
             None \<Rightarrow>
               save_alerts now fault (Suc k) as
                 (db_add a db, seen @ [a\<lparr>object_state := Pending\<rparr>])
           | Some x \<Rightarrow> save_alerts now fault (Suc k) as (db, seen @ [a]))"

text \<open>
  What a commit does to the objects of \<^verbatim>\<open>alerts\<close>: the pending ones become persistent,
  with the ids of their rows, in the order they were added. What a rollback does: the
  pending ones are transient again.
\<close>

fun persist_objects :: "int \<Rightarrow> alert_object list \<Rightarrow> alert_object list" where
  "persist_objects i [] = []"
| "persist_objects i (a # as) =
     (if object_state a = Pending
      then a\<lparr>object_state := Persistent i\<rparr> # persist_objects (i + 1) as
      else a # persist_objects i as)"

definition expunge_objects :: "alert_object list \<Rightarrow> alert_object list" where
  "expunge_objects alerts =
     map (\<lambda>a. if object_state a = Pending then a\<lparr>object_state := Transient\<rparr> else a) alerts"

text \<open>
  \<^verbatim>\<open>if alerts: db.commit()\<close>, the round trip after the queries. The objects the loop
  added are the last of the session's pending objects, so their rows get the ids after
  those of the objects that were pending before.
\<close>

definition commit_alerts :: "timestamp \<Rightarrow> fault \<Rightarrow> (session \<times> alert_object list) step" where
  "commit_alerts now fault s =
     (case s of (db, alerts) \<Rightarrow>
        if alerts \<noteq> [] then
          (if fault = Some (length alerts) then (s, Some StoreError)
           else ((db_commit now db,
                  persist_objects
                    (next_id db + int (length (pending db))
                       - int (length (filter (\<lambda>a. object_state a = Pending) alerts)))
                    alerts),
                 None))
        else (s, None))"

text \<open>
  The whole method. The result is what the caller gets: the method has no \<^verbatim>\<open>raise\<close> and
  its \<^verbatim>\<open>except Exception\<close> logs, rolls back and falls through to \<^verbatim>\<open>return alerts\<close>, the
  list of the objects in the state the session left them in. All readings of
  \<^verbatim>\<open>datetime.now()\<close> during one call are the one instant \<open>now\<close>.
\<close>

definition evaluate_weather_data ::
  "thresholds \<Rightarrow> timestamp \<Rightarrow> fault \<Rightarrow> session \<Rightarrow> weather_data
     \<Rightarrow> (py_error + alert_object list) \<times> session" where
  "evaluate_weather_data self now fault db wd =
     (case evaluate_rules self now wd [] of
        (alerts, Some e) \<Rightarrow> (Inr (expunge_objects alerts), db_rollback db)
      | (alerts, None) \<Rightarrow>
          (case run_steps [save_alerts now fault 0 alerts, commit_alerts now fault] (db, []) of
             ((db', alerts'), Some e) \<Rightarrow> (Inr (expunge_objects alerts'), db_rollback db')
           | ((db', alerts'), None) \<Rightarrow> (Inr alerts', db')))"

section \<open>Lifecycle and queries\<close>

text \<open>The UPDATE of the row that \<^verbatim>\<open>.first()\<close> returned.\<close>

fun update_first :: "('a \<Rightarrow> bool) \<Rightarrow> ('a \<Rightarrow> 'a) \<Rightarrow> 'a list \<Rightarrow> 'a list" where
  "update_first P f [] = []"
| "update_first P f (x # xs) = (if P x then f x # xs else x # update_first P f xs)"

text \<open>
  \<^verbatim>\<open>deactivate_alert\<close>: the query is round trip 0, the commit round trip 1. Every path
  returns a \<^verbatim>\<open>bool\<close>.
\<close>

definition deactivate_alert ::
  "timestamp \<Rightarrow> fault \<Rightarrow> session \<Rightarrow> int \<Rightarrow> (py_error + bool) \<times> session" where
  "deactivate_alert now fault db aid =
     (if fault = Some 0 then (Inr False, db_rollback db)
      else case find (\<lambda>x. alert_id x = aid) (alerts_tbl db) of
             None \<Rightarrow> (Inr False, db)
           | Some a \<Rightarrow>
               if fault = Some 1 then (Inr False, db_rollback db)
               else (Inr True,
                     db_commit now
                       (db\<lparr>alerts_tbl :=
                             update_first (\<lambda>x. alert_id x = aid)
                               (\<lambda>x. x\<lparr>is_active := False, alert_end := Some now\<rparr>)
                               (alerts_tbl db)\<rparr>)))"

text \<open>
  The route \<^verbatim>\<open>PATCH /alerts/{alert_id}/deactivate\<close> of the admin router: the response, or
  the \<^verbatim>\<open>HTTPException\<close> with its status code and detail. The message of the response
  is an f-string with the alert id interpolated.
\<close>

datatype fmessage = FMessage string int string

datatype http_response = APIResponse bool fmessage | HTTPException nat string

definition router_deactivate_alert ::
  "timestamp \<Rightarrow> fault \<Rightarrow> session \<Rightarrow> int \<Rightarrow> http_response \<times> session" where
  "router_deactivate_alert now fault db aid =
     (case deactivate_alert now fault db aid of
        (Inr success, db') \<Rightarrow>
          (if success then (APIResponse True (FMessage ''Alerta '' aid '' desactivada exitosamente''), db')
           else (HTTPException 404 ''Alerta no encontrada'', db'))
      | (Inl e, db') \<Rightarrow> (HTTPException 500 ''Error interno del servidor'', db'))"

text \<open>
  \<^verbatim>\<open>get_active_alerts\<close>: one round trip. \<^verbatim>\<open>if location_id:\<close> is Python truthiness, false
  for \<^verbatim>\<open>None\<close> and for 0. The order among alerts of equal \<^verbatim>\<open>alert_start\<close> is the store's;
  here it is the row order.
\<close>

definition get_active_alerts :: "fault \<Rightarrow> session \<Rightarrow> int option \<Rightarrow> py_error + alert list" where
  "get_active_alerts fault db loc =
     (if fault = Some 0 then Inr []
      else
        let query = filter (\<lambda>x. is_active x = True) (alerts_tbl db);
            query' = (if loc \<noteq> None \<and> loc \<noteq> Some 0
                      then filter (\<lambda>x. Some (location_id x) = loc) query
                      else query)
        in Inr (sort_key (\<lambda>x. - alert_start x) query'))"

section \<open>Statistics\<close>










section \<open>Vocabulary of the properties\<close>

text \<open>The order of the tiers, \<open>bajo < medio < alto < cr\'itico\<close>.\<close>

fun tier_rank :: "risk_level \<Rightarrow> nat" where
  "tier_rank Bajo = 0"
| "tier_rank Medio = 1"
| "tier_rank Alto = 2"
| "tier_rank Critico = 3"

text \<open>The tier of the candidate a check function returned, if it returned one.\<close>

definition tier_of :: "py_error + alert_object option \<Rightarrow> risk_level option" where
  "tier_of res = (case res of Inr (Some c) \<Rightarrow> Some (risk_level c) | _ \<Rightarrow> None)"

text \<open>
  \<open>classifies holds res\<close>: the result \<open>res\<close> of a check function is the most severe tier
  whose boundary condition \<open>holds\<close>, and no candidate when no boundary condition holds.
\<close>

definition classifies ::
  "(risk_level \<Rightarrow> bool) \<Rightarrow> py_error + alert_object option \<Rightarrow> bool" where
  "classifies holds res =
     (case res of
        Inl e \<Rightarrow> False
      | Inr None \<Rightarrow> (\<forall>r. \<not> holds r)
      | Inr (Some c) \<Rightarrow>
          holds (risk_level c) \<and> (\<forall>r. tier_rank (risk_level c) < tier_rank r \<longrightarrow> \<not> holds r))"

text \<open>The candidates of an observation: what the check functions of its present metrics return.\<close>

definition produced :: "py_error + alert_object option \<Rightarrow> alert_object list" where
  "produced r = (case r of Inr (Some a) \<Rightarrow> [a] | _ \<Rightarrow> [])"

definition candidates :: "thresholds \<Rightarrow> timestamp \<Rightarrow> weather_data \<Rightarrow> alert_object list" where
  "candidates self now wd =
     (if temperature_2m wd \<noteq> None
      then produced (check_temperature_high self now wd) @ produced (check_temperature_low self now wd)
      else [])
     @ (if rain wd \<noteq> None then produced (check_heavy_rain self now wd) else [])
     @ (if windspeed_10m wd \<noteq> None then produced (check_strong_wind self now wd) else [])
     @ (if relativehumidity_2m wd \<noteq> None then produced (check_high_humidity self now wd) else [])"

text \<open>
  The candidates the loop hands to \<^verbatim>\<open>db.add\<close>, and the objects as the loop leaves them.
\<close>

definition admitted :: "timestamp \<Rightarrow> session \<Rightarrow> alert_object list \<Rightarrow> alert_object list" where
  "admitted now db cs = filter (\<lambda>c. existing_alert now db c = None) cs"

definition marked :: "timestamp \<Rightarrow> session \<Rightarrow> alert_object \<Rightarrow> alert_object" where
  "marked now db a =
     (if existing_alert now db a = None then a\<lparr>object_state := Pending\<rparr> else a)"

text \<open>
  \<open>suppressing now db c\<close>: the store holds an active alert of the candidate's location and
  type that started no earlier than 24 hours before \<open>now\<close>.
\<close>

definition suppressing :: "timestamp \<Rightarrow> session \<Rightarrow> alert_object \<Rightarrow> bool" where
  "suppressing now db c =
     list_ex (\<lambda>x. is_active x \<and> location_id x = location_id c \<and> alert_type x = alert_type c
                  \<and> now - hours 24 \<le> alert_start x)
       (alerts_tbl db)"

text \<open>
  \<open>in_trailing_window now db c\<close>: the same, with the start also no later than \<open>now\<close>. The
  query has no such upper bound; the two agree on a store whose alerts all started by
  \<open>now\<close>.
\<close>

definition in_trailing_window :: "timestamp \<Rightarrow> session \<Rightarrow> alert_object \<Rightarrow> bool" where
  "in_trailing_window now db c =
     list_ex (\<lambda>x. is_active x \<and> location_id x = location_id c \<and> alert_type x = alert_type c
                  \<and> now - hours 24 \<le> alert_start x \<and> alert_start x \<le> now)
       (alerts_tbl db)"

text \<open>
  \<open>persisted db db' c\<close>: among the rows that \<open>db'\<close> has after those of \<open>db\<close> there is an
  active one, without end, carrying the attributes of the candidate \<open>c\<close>.
\<close>

definition persisted :: "session \<Rightarrow> session \<Rightarrow> alert_object \<Rightarrow> bool" where
  "persisted db db' c =
     list_ex (\<lambda>x. candidate.truncate x = candidate.truncate c \<and> is_active x \<and> alert_end x = None)
       (drop (length (alerts_tbl db)) (alerts_tbl db'))"

text \<open>An object is persistent when it carries the id of its row.\<close>

definition is_persistent :: "alert_object \<Rightarrow> bool" where
  "is_persistent a = (case object_state a of Persistent i \<Rightarrow> True | _ \<Rightarrow> False)"

definition active_count :: "session \<Rightarrow> int \<Rightarrow> string \<Rightarrow> nat" where
  "active_count db loc ty =
     length (filter (\<lambda>x. is_active x \<and> location_id x = loc \<and> alert_type x = ty) (alerts_tbl db))"

text \<open>The lifecycle invariant of one alert.\<close>

definition lifecycle_ok :: "alert \<Rightarrow> bool" where
  "lifecycle_ok a = (is_active a = (alert_end a = None))"

text \<open>The operations of the engine that write alerts, and runs of them.\<close>

datatype engine_op =
    Evaluate thresholds timestamp fault weather_data
  | Deactivate timestamp fault int

fun apply_op :: "session \<Rightarrow> engine_op \<Rightarrow> session" where
  "apply_op db (Evaluate self now fault wd) = snd (evaluate_weather_data self now fault db wd)"
| "apply_op db (Deactivate now fault aid) = snd (deactivate_alert now fault db aid)"

definition run_ops :: "engine_op list \<Rightarrow> session \<Rightarrow> session" where
  "run_ops ops db = foldl apply_op db ops"

subsection \<open>Example data\<close>

definition observation :: "int \<Rightarrow> timestamp \<Rightarrow> real \<Rightarrow> weather_data" where
  "observation loc t temp =
     \<lparr>wd_id = 1, wd_location_id = loc, wd_time = t, temperature_2m = Some temp,
      relativehumidity_2m = None, rain = None, windspeed_10m = None\<rparr>"

definition empty_store :: session where
  "empty_store = \<lparr>alerts_tbl = [], locations_tbl = [], next_id = 1, pending = []\<rparr>"

definition heat_alert :: "int \<Rightarrow> int \<Rightarrow> timestamp \<Rightarrow> alert" where
  "heat_alert i loc t =
     \<lparr>location_id = loc, weather_data_id = 1, alert_type = ''temperatura_alta'',
      risk_level = Critico, severity = ''advisory'', threshold_value = 45, current_value = 46,
      alert_start = t, description = FString ''Temperatura alta detectada: '' 46 (degree_sign @ ''C''),
      recommendations = get_temperature_recommendations 46 ''alta'',
      alert_id = i, alert_end = None, is_active = True, created_at = t\<rparr>"

text \<open>The \<^verbatim>\<open>Alert\<close> object that the observation above gives when evaluated at \<open>t\<close>.\<close>

definition heat_object :: "int \<Rightarrow> timestamp \<Rightarrow> object_state \<Rightarrow> alert_object" where
  "heat_object loc t st =
     \<lparr>location_id = loc, weather_data_id = 1, alert_type = ''temperatura_alta'',
      risk_level = Critico, severity = ''advisory'', threshold_value = 45, current_value = 46,
      alert_start = t, description = FString ''Temperatura alta detectada: '' 46 (degree_sign @ ''C''),
      recommendations = get_temperature_recommendations 46 ''alta'',
      object_state = st\<rparr>"




definition store_of :: "alert list \<Rightarrow> location list \<Rightarrow> session" where
  "store_of rows locs =
     \<lparr>alerts_tbl = rows, locations_tbl = locs, next_id = 1 + int (length rows), pending = []\<rparr>"

section \<open>Rule evaluation\<close>

lemma all_risk_levels: "(\<forall>r. P r) \<longleftrightarrow> P Bajo \<and> P Medio \<and> P Alto \<and> P Critico"
  by (metis risk_level.exhaust)

lemma classifies_temperature_high:
  "temperature_2m wd = Some v \<Longrightarrow>
   classifies (\<lambda>r. v \<ge> threshold_of (temperatura_alta self) r) (check_temperature_high self now wd)"
  by (simp add: classifies_def check_temperature_high_def Let_def all_risk_levels)

lemma classifies_temperature_low:
  "temperature_2m wd = Some v \<Longrightarrow>
   classifies (\<lambda>r. v \<le> threshold_of (temperatura_baja self) r) (check_temperature_low self now wd)"
  by (simp add: classifies_def check_temperature_low_def Let_def all_risk_levels)

lemma classifies_heavy_rain:
  "rain wd = Some v \<Longrightarrow>
   classifies (\<lambda>r. v \<ge> threshold_of (lluvia_intensa self) r) (check_heavy_rain self now wd)"
  by (simp add: classifies_def check_heavy_rain_def Let_def all_risk_levels)

lemma classifies_strong_wind:
  "windspeed_10m wd = Some v \<Longrightarrow>
   classifies (\<lambda>r. v \<ge> threshold_of (viento_fuerte self) r) (check_strong_wind self now wd)"
  by (simp add: classifies_def check_strong_wind_def Let_def all_risk_levels)

lemma classifies_high_humidity:
  "relativehumidity_2m wd = Some v \<Longrightarrow>
   classifies (\<lambda>r. v \<ge> threshold_of (humedad_alta self) r) (check_high_humidity self now wd)"
  by (simp add: classifies_def check_high_humidity_def Let_def all_risk_levels)

lemma classifies_critico:
  assumes "classifies holds res" "holds Critico"
  shows "tier_of res = Some Critico"
proof (cases res)
  case (Inl e)
  with assms show ?thesis by (simp add: classifies_def)
next
  case (Inr opt)
  show ?thesis
  proof (cases opt)
    case None
    with Inr assms show ?thesis by (simp add: classifies_def)
  next
    case (Some c)
    with Inr assms have "\<forall>r. tier_rank (risk_level c) < tier_rank r \<longrightarrow> \<not> holds r"
      by (simp add: classifies_def)
    with assms(2) have "\<not> tier_rank (risk_level c) < tier_rank Critico" by blast
    then have "risk_level c = Critico" by (cases "risk_level c") simp_all
    with Inr Some show ?thesis by (simp add: tier_of_def)
  qed
qed

text \<open>
  C2. Whatever the threshold tables are, each check function assigns the most severe tier
  whose boundary condition holds: (\<open>value \<ge> threshold[tier]\<close> for high temperature,
  heavy rain, strong wind and high humidity, \<open>value \<le> threshold[tier]\<close> for low
  temperature), and produces no candidate when no tier's condition holds. In particular a
  value equal to the \<open>cr\'itico\<close> threshold of a high-is-bad type is classified
  \<open>cr\'itico\<close>.
\<close>

theorem tier_selection_most_severe_first:
  "(temperature_2m wd = Some v \<longrightarrow>
      classifies (\<lambda>r. v \<ge> threshold_of (temperatura_alta self) r)
        (check_temperature_high self now wd) \<and>
      classifies (\<lambda>r. v \<le> threshold_of (temperatura_baja self) r)
        (check_temperature_low self now wd) \<and>
      (v = critico (temperatura_alta self) \<longrightarrow>
         tier_of (check_temperature_high self now wd) = Some Critico)) \<and>
   (rain wd = Some v \<longrightarrow>
      classifies (\<lambda>r. v \<ge> threshold_of (lluvia_intensa self) r) (check_heavy_rain self now wd) \<and>
      (v = critico (lluvia_intensa self) \<longrightarrow>
         tier_of (check_heavy_rain self now wd) = Some Critico)) \<and>
   (windspeed_10m wd = Some v \<longrightarrow>
      classifies (\<lambda>r. v \<ge> threshold_of (viento_fuerte self) r) (check_strong_wind self now wd) \<and>
      (v = critico (viento_fuerte self) \<longrightarrow>
         tier_of (check_strong_wind self now wd) = Some Critico)) \<and>
   (relativehumidity_2m wd = Some v \<longrightarrow>
      classifies (\<lambda>r. v \<ge> threshold_of (humedad_alta self) r) (check_high_humidity self now wd) \<and>
      (v = critico (humedad_alta self) \<longrightarrow>
         tier_of (check_high_humidity self now wd) = Some Critico))"
proof (intro conjI impI)
  assume t: "temperature_2m wd = Some v"
  show "classifies (\<lambda>r. v \<ge> threshold_of (temperatura_alta self) r)
          (check_temperature_high self now wd)"
    by (rule classifies_temperature_high [OF t])
  show "classifies (\<lambda>r. v \<le> threshold_of (temperatura_baja self) r)
          (check_temperature_low self now wd)"
    by (rule classifies_temperature_low [OF t])
  assume "v = critico (temperatura_alta self)"
  then show "tier_of (check_temperature_high self now wd) = Some Critico"
    using classifies_critico [OF classifies_temperature_high [OF t, of self now]] by simp
next
  assume m: "rain wd = Some v"
  show "classifies (\<lambda>r. v \<ge> threshold_of (lluvia_intensa self) r) (check_heavy_rain self now wd)"
    by (rule classifies_heavy_rain [OF m])
  assume "v = critico (lluvia_intensa self)"
  then show "tier_of (check_heavy_rain self now wd) = Some Critico"
    using classifies_critico [OF classifies_heavy_rain [OF m, of self now]] by simp
next
  assume m: "windspeed_10m wd = Some v"
  show "classifies (\<lambda>r. v \<ge> threshold_of (viento_fuerte self) r) (check_strong_wind self now wd)"
    by (rule classifies_strong_wind [OF m])
  assume "v = critico (viento_fuerte self)"
  then show "tier_of (check_strong_wind self now wd) = Some Critico"
    using classifies_critico [OF classifies_strong_wind [OF m, of self now]] by simp
next
  assume m: "relativehumidity_2m wd = Some v"
  show "classifies (\<lambda>r. v \<ge> threshold_of (humedad_alta self) r) (check_high_humidity self now wd)"
    by (rule classifies_high_humidity [OF m])
  assume "v = critico (humedad_alta self)"
  then show "tier_of (check_high_humidity self now wd) = Some Critico"
    using classifies_critico [OF classifies_high_humidity [OF m, of self now]] by simp
qed

theorem tier_selection_most_severe_first_witness:
  "temperature_2m (observation 1 5 45) = Some 45 \<and>
   (45::real) = critico (temperatura_alta DEFAULT_THRESHOLDS) \<and>
   (45::real) \<ge> threshold_of (temperatura_alta DEFAULT_THRESHOLDS) Alto \<and>
   tier_of (check_temperature_high DEFAULT_THRESHOLDS 100 (observation 1 5 45)) = Some Critico \<and>
   tier_of (check_temperature_low DEFAULT_THRESHOLDS 100 (observation 1 5 45)) = None \<and>
   tier_of (check_temperature_low DEFAULT_THRESHOLDS 100 (observation 1 5 0)) = Some Medio \<and>
   tier_of (check_temperature_high DEFAULT_THRESHOLDS 100 (observation 1 5 29)) = None"
  using tier_selection_most_severe_first [of "observation 1 5 45" 45 DEFAULT_THRESHOLDS 100]
  by (simp add: observation_def DEFAULT_THRESHOLDS_def tier_of_def
        check_temperature_high_def check_temperature_low_def)

section \<open>The candidates of an observation\<close>

lemma check_temperature_high_Inr:
  "temperature_2m wd \<noteq> None \<Longrightarrow> \<exists>r. check_temperature_high self now wd = Inr r"
  by (cases "temperature_2m wd") (simp_all add: check_temperature_high_def Let_def split: option.split)

lemma check_temperature_low_Inr:
  "temperature_2m wd \<noteq> None \<Longrightarrow> \<exists>r. check_temperature_low self now wd = Inr r"
  by (cases "temperature_2m wd") (simp_all add: check_temperature_low_def Let_def split: option.split)

lemma check_heavy_rain_Inr:
  "rain wd \<noteq> None \<Longrightarrow> \<exists>r. check_heavy_rain self now wd = Inr r"
  by (cases "rain wd") (simp_all add: check_heavy_rain_def Let_def split: option.split)

lemma check_strong_wind_Inr:
  "windspeed_10m wd \<noteq> None \<Longrightarrow> \<exists>r. check_strong_wind self now wd = Inr r"
  by (cases "windspeed_10m wd") (simp_all add: check_strong_wind_def Let_def split: option.split)

lemma check_high_humidity_Inr:
  "relativehumidity_2m wd \<noteq> None \<Longrightarrow> \<exists>r. check_high_humidity self now wd = Inr r"
  by (cases "relativehumidity_2m wd") (simp_all add: check_high_humidity_def Let_def split: option.split)

lemma check_temperature_high_fields:
  "check_temperature_high self now wd = Inr (Some c) \<Longrightarrow>
     location_id c = wd_location_id wd \<and> alert_type c = ''temperatura_alta'' \<and> alert_start c = now"
  by (cases "temperature_2m wd")
     (auto simp: check_temperature_high_def Let_def split: option.splits)

lemma check_temperature_low_fields:
  "check_temperature_low self now wd = Inr (Some c) \<Longrightarrow>
     location_id c = wd_location_id wd \<and> alert_type c = ''temperatura_baja'' \<and> alert_start c = now"
  by (cases "temperature_2m wd")
     (auto simp: check_temperature_low_def Let_def split: option.splits)

lemma check_heavy_rain_fields:
  "check_heavy_rain self now wd = Inr (Some c) \<Longrightarrow>
     location_id c = wd_location_id wd \<and> alert_type c = ''lluvia_intensa'' \<and> alert_start c = now"
  by (cases "rain wd")
     (auto simp: check_heavy_rain_def Let_def split: option.splits)

lemma check_strong_wind_fields:
  "check_strong_wind self now wd = Inr (Some c) \<Longrightarrow>
     location_id c = wd_location_id wd \<and> alert_type c = ''viento_fuerte'' \<and> alert_start c = now"
  by (cases "windspeed_10m wd")
     (auto simp: check_strong_wind_def Let_def split: option.splits)

lemma check_high_humidity_fields:
  "check_high_humidity self now wd = Inr (Some c) \<Longrightarrow>
     location_id c = wd_location_id wd \<and> alert_type c = ''humedad_alta'' \<and> alert_start c = now"
  by (cases "relativehumidity_2m wd")
     (auto simp: check_high_humidity_def Let_def split: option.splits)

lemma append_alert_Inr: "append_alert (Inr r) alerts = (alerts @ produced (Inr r), None)"
  by (simp add: append_alert_def produced_def split: option.splits)

lemma evaluate_rules_eq: "evaluate_rules self now wd alerts = (alerts @ candidates self now wd, None)"
proof -
  have t: "(if temperature_2m wd \<noteq> None
            then run_steps [append_alert (check_temperature_high self now wd),
                            append_alert (check_temperature_low self now wd)] xs
            else (xs, None)) =
           (xs @ (if temperature_2m wd \<noteq> None
                  then produced (check_temperature_high self now wd) @
                       produced (check_temperature_low self now wd)
                  else []), None)" for xs
    using check_temperature_high_Inr[of wd self now] check_temperature_low_Inr[of wd self now]
    by (auto simp: append_alert_Inr)
  have r: "(if rain wd \<noteq> None then append_alert (check_heavy_rain self now wd) xs
            else (xs, None)) =
           (xs @ (if rain wd \<noteq> None then produced (check_heavy_rain self now wd) else []), None)"
    for xs
    using check_heavy_rain_Inr[of wd self now] by (auto simp: append_alert_Inr)
  have w: "(if windspeed_10m wd \<noteq> None then append_alert (check_strong_wind self now wd) xs
            else (xs, None)) =
           (xs @ (if windspeed_10m wd \<noteq> None then produced (check_strong_wind self now wd)
                  else []), None)" for xs
    using check_strong_wind_Inr[of wd self now] by (auto simp: append_alert_Inr)
  have h: "(if relativehumidity_2m wd \<noteq> None
            then append_alert (check_high_humidity self now wd) xs else (xs, None)) =
           (xs @ (if relativehumidity_2m wd \<noteq> None
                  then produced (check_high_humidity self now wd) else []), None)" for xs
    using check_high_humidity_Inr[of wd self now] by (auto simp: append_alert_Inr)
  show ?thesis
    unfolding evaluate_rules_def candidates_def
    apply (simp only: t r w h)
    apply simp
    done
qed

lemma produced_cases: "c \<in> set (produced r) \<Longrightarrow> r = Inr (Some c)"
  by (auto simp: produced_def split: sum.splits option.splits)

lemma produced_Some: "produced (Inr (Some c)) = [c]"
  by (simp add: produced_def)

lemma candidates_cases:
  assumes "c \<in> set (candidates self now wd)"
  obtains "check_temperature_high self now wd = Inr (Some c)"
    | "check_temperature_low self now wd = Inr (Some c)"
    | "check_heavy_rain self now wd = Inr (Some c)"
    | "check_strong_wind self now wd = Inr (Some c)"
    | "check_high_humidity self now wd = Inr (Some c)"
  using assms unfolding candidates_def by (auto split: if_splits dest: produced_cases)

lemma candidates_fields:
  assumes "c \<in> set (candidates self now wd)"
  shows "location_id c = wd_location_id wd \<and> alert_start c = now"
  using assms
  by (rule candidates_cases)
     (simp_all add: check_temperature_high_fields check_temperature_low_fields
        check_heavy_rain_fields check_strong_wind_fields check_high_humidity_fields)

lemma produced_type_high:
  "map alert_type (produced (check_temperature_high self now wd)) \<in> {[], [''temperatura_alta'']}"
  using check_temperature_high_fields[of self now wd]
  by (auto simp: produced_def split: sum.splits option.splits)

lemma produced_type_low:
  "map alert_type (produced (check_temperature_low self now wd)) \<in> {[], [''temperatura_baja'']}"
  using check_temperature_low_fields[of self now wd]
  by (auto simp: produced_def split: sum.splits option.splits)

lemma produced_type_rain:
  "map alert_type (produced (check_heavy_rain self now wd)) \<in> {[], [''lluvia_intensa'']}"
  using check_heavy_rain_fields[of self now wd]
  by (auto simp: produced_def split: sum.splits option.splits)

lemma produced_type_wind:
  "map alert_type (produced (check_strong_wind self now wd)) \<in> {[], [''viento_fuerte'']}"
  using check_strong_wind_fields[of self now wd]
  by (auto simp: produced_def split: sum.splits option.splits)

lemma produced_type_humidity:
  "map alert_type (produced (check_high_humidity self now wd)) \<in> {[], [''humedad_alta'']}"
  using check_high_humidity_fields[of self now wd]
  by (auto simp: produced_def split: sum.splits option.splits)

lemma distinct_types_aux:
  assumes "a \<in> {[], [''temperatura_alta'']}" "b \<in> {[], [''temperatura_baja'']}"
    "c \<in> {[], [''lluvia_intensa'']}" "d \<in> {[], [''viento_fuerte'']}"
    "e \<in> {[], [''humedad_alta'']}"
  shows "distinct (a @ b @ c @ d @ e)"
  using assms by auto

lemma candidates_distinct_types: "distinct (map alert_type (candidates self now wd))"
proof -
  have "map alert_type (candidates self now wd) =
     (if temperature_2m wd \<noteq> None
      then map alert_type (produced (check_temperature_high self now wd)) else [])
   @ (if temperature_2m wd \<noteq> None
      then map alert_type (produced (check_temperature_low self now wd)) else [])
   @ (if rain wd \<noteq> None then map alert_type (produced (check_heavy_rain self now wd)) else [])
   @ (if windspeed_10m wd \<noteq> None
      then map alert_type (produced (check_strong_wind self now wd)) else [])
   @ (if relativehumidity_2m wd \<noteq> None
      then map alert_type (produced (check_high_humidity self now wd)) else [])"
    by (simp add: candidates_def)
  moreover have "distinct \<dots>"
    by (rule distinct_types_aux)
       (simp_all add: produced_type_high produced_type_low produced_type_rain
          produced_type_wind produced_type_humidity insertI1 del: insert_iff)
  ultimately show ?thesis by simp
qed

text \<open>The clock reading enters a candidate only as its \<^verbatim>\<open>alert_start\<close>.\<close>

lemma candidates_types_now:
  "map (\<lambda>c. (location_id c, alert_type c)) (candidates self now' wd) =
   map (\<lambda>c. (location_id c, alert_type c)) (candidates self now wd)"
proof -
  have 1: "map (\<lambda>c. (location_id c, alert_type c)) (produced (check_temperature_high self now' wd)) =
           map (\<lambda>c. (location_id c, alert_type c)) (produced (check_temperature_high self now wd))"
    by (cases "temperature_2m wd")
       (simp_all add: check_temperature_high_def Let_def produced_def split: option.split)
  have 2: "map (\<lambda>c. (location_id c, alert_type c)) (produced (check_temperature_low self now' wd)) =
           map (\<lambda>c. (location_id c, alert_type c)) (produced (check_temperature_low self now wd))"
    by (cases "temperature_2m wd")
       (simp_all add: check_temperature_low_def Let_def produced_def split: option.split)
  have 3: "map (\<lambda>c. (location_id c, alert_type c)) (produced (check_heavy_rain self now' wd)) =
           map (\<lambda>c. (location_id c, alert_type c)) (produced (check_heavy_rain self now wd))"
    by (cases "rain wd")
       (simp_all add: check_heavy_rain_def Let_def produced_def split: option.split)
  have 4: "map (\<lambda>c. (location_id c, alert_type c)) (produced (check_strong_wind self now' wd)) =
           map (\<lambda>c. (location_id c, alert_type c)) (produced (check_strong_wind self now wd))"
    by (cases "windspeed_10m wd")
       (simp_all add: check_strong_wind_def Let_def produced_def split: option.split)
  have 5: "map (\<lambda>c. (location_id c, alert_type c)) (produced (check_high_humidity self now' wd)) =
           map (\<lambda>c. (location_id c, alert_type c)) (produced (check_high_humidity self now wd))"
    by (cases "relativehumidity_2m wd")
       (simp_all add: check_high_humidity_def Let_def produced_def split: option.split)
  show ?thesis
    by (simp add: candidates_def 1 2 3 4 5)
qed

lemma check_temperature_high_transient:
  "check_temperature_high self now wd = Inr (Some c) \<Longrightarrow> object_state c = Transient"
  by (cases "temperature_2m wd")
     (auto simp: check_temperature_high_def Let_def split: option.splits)

lemma check_temperature_low_transient:
  "check_temperature_low self now wd = Inr (Some c) \<Longrightarrow> object_state c = Transient"
  by (cases "temperature_2m wd")
     (auto simp: check_temperature_low_def Let_def split: option.splits)

lemma check_heavy_rain_transient:
  "check_heavy_rain self now wd = Inr (Some c) \<Longrightarrow> object_state c = Transient"
  by (cases "rain wd")
     (auto simp: check_heavy_rain_def Let_def split: option.splits)

lemma check_strong_wind_transient:
  "check_strong_wind self now wd = Inr (Some c) \<Longrightarrow> object_state c = Transient"
  by (cases "windspeed_10m wd")
     (auto simp: check_strong_wind_def Let_def split: option.splits)

lemma check_high_humidity_transient:
  "check_high_humidity self now wd = Inr (Some c) \<Longrightarrow> object_state c = Transient"
  by (cases "relativehumidity_2m wd")
     (auto simp: check_high_humidity_def Let_def split: option.splits)

lemma candidates_transient:
  assumes "c \<in> set (candidates self now wd)"
  shows "object_state c = Transient"
  using assms
  by (rule candidates_cases)
     (simp_all add: check_temperature_high_transient check_temperature_low_transient
        check_heavy_rain_transient check_strong_wind_transient check_high_humidity_transient)

section \<open>The persistence loop\<close>

lemma truncate_fields [simp]:
  "location_id (candidate.truncate a) = location_id a"
  "alert_type (candidate.truncate a) = alert_type a"
  "alert_start (candidate.truncate a) = alert_start a"
  by (simp_all add: candidate.truncate_def)

lemma truncate_state [simp]:
  "candidate.truncate (a\<lparr>object_state := s\<rparr>) = candidate.truncate a"
  by (simp add: candidate.truncate_def)

lemma existing_alert_pending [simp]:
  "existing_alert now (db\<lparr>pending := p\<rparr>) a = existing_alert now db a"
  by (simp add: existing_alert_def)

lemma existing_alert_state [simp]:
  "existing_alert now db (a\<lparr>object_state := s\<rparr>) = existing_alert now db a"
  by (simp add: existing_alert_def)

lemma admitted_Nil [simp]: "admitted now db [] = []"
  by (simp add: admitted_def)

lemma admitted_pending [simp]: "admitted now (db\<lparr>pending := p\<rparr>) cs = admitted now db cs"
  by (simp add: admitted_def)

lemma marked_pending [simp]: "marked now (db\<lparr>pending := p\<rparr>) = marked now db"
  by (rule ext) (simp add: marked_def)

lemma truncate_marked [simp]: "candidate.truncate (marked now db a) = candidate.truncate a"
  by (simp add: marked_def)

lemma save_alerts_ok:
  "(\<And>j. fault = Some j \<Longrightarrow> j < k \<or> k + length cs \<le> j) \<Longrightarrow>
   save_alerts now fault k cs (db, seen) =
     ((db\<lparr>pending := pending db @ map candidate.truncate (admitted now db cs)\<rparr>,
       seen @ map (marked now db) cs), None)"
proof (induction cs arbitrary: k db seen)
  case Nil
  then show ?case by simp
next
  case (Cons a cs)
  have nk: "fault \<noteq> Some k" using Cons.prems[of k] by auto
  have step: "\<And>j. fault = Some j \<Longrightarrow> j < Suc k \<or> Suc k + length cs \<le> j"
    using Cons.prems by fastforce
  show ?case
    using nk Cons.IH[OF step]
    by (cases "existing_alert now db a") (simp_all add: admitted_def marked_def db_add_def)
qed

lemma expunge_append [simp]:
  "expunge_objects (xs @ ys) = expunge_objects xs @ expunge_objects ys"
  by (simp add: expunge_objects_def)

lemma expunge_transient:
  "\<forall>a \<in> set cs. object_state a = Transient \<Longrightarrow> expunge_objects cs = cs"
  by (induction cs) (simp_all add: expunge_objects_def)

lemma expunge_pending:
  "object_state a = Transient \<Longrightarrow> expunge_objects [a\<lparr>object_state := Pending\<rparr>] = [a]"
  by (simp add: expunge_objects_def)

lemma save_alerts_fail:
  "fault = Some j \<Longrightarrow> k \<le> j \<Longrightarrow> j < k + length cs \<Longrightarrow>
   \<forall>a \<in> set cs. object_state a = Transient \<Longrightarrow>
   \<exists>p seen'. save_alerts now fault k cs (db, seen) = ((db\<lparr>pending := p\<rparr>, seen'), Some StoreError)
      \<and> expunge_objects seen' = expunge_objects seen @ cs"
proof (induction cs arbitrary: k db seen)
  case Nil
  then show ?case by simp
next
  case (Cons a cs)
  have tr: "\<forall>x \<in> set cs. object_state x = Transient" and ta: "object_state a = Transient"
    using Cons.prems(4) by simp_all
  show ?case
  proof (cases "j = k")
    case True
    have "db = db\<lparr>pending := pending db\<rparr>" by simp
    moreover have "expunge_objects (seen @ a # cs) = expunge_objects seen @ a # cs"
      using expunge_transient [of "a # cs"] Cons.prems(4) by simp
    ultimately show ?thesis
      using True Cons.prems(1) by (metis save_alerts.simps(2))
  next
    case False
    then have *: "Suc k \<le> j" "j < Suc k + length cs" using Cons.prems by auto
    show ?thesis
    proof (cases "existing_alert now db a")
      case None
      from Cons.IH [OF Cons.prems(1) * tr, of "db_add a db" "seen @ [a\<lparr>object_state := Pending\<rparr>]"]
      obtain p seen' where
        "save_alerts now fault (Suc k) cs (db_add a db, seen @ [a\<lparr>object_state := Pending\<rparr>]) =
           ((db_add a db\<lparr>pending := p\<rparr>, seen'), Some StoreError)"
        "expunge_objects seen' = expunge_objects (seen @ [a\<lparr>object_state := Pending\<rparr>]) @ cs"
        by blast
      then show ?thesis
        using False None Cons.prems(1) ta by (fastforce simp: db_add_def expunge_pending)
    next
      case (Some x)
      from Cons.IH [OF Cons.prems(1) * tr, of db "seen @ [a]"]
      obtain p seen' where
        "save_alerts now fault (Suc k) cs (db, seen @ [a]) = ((db\<lparr>pending := p\<rparr>, seen'), Some StoreError)"
        "expunge_objects seen' = expunge_objects (seen @ [a]) @ cs"
        by blast
      then show ?thesis
        using False Some Cons.prems(1) ta expunge_transient [of "[a]"] by fastforce
    qed
  qed
qed

lemma count_pending_marked:
  "\<forall>a \<in> set cs. object_state a = Transient \<Longrightarrow>
   length (filter (\<lambda>a. object_state a = Pending) (map (marked now db) cs)) =
   length (admitted now db cs)"
  by (induction cs) (simp_all add: marked_def admitted_def)

section \<open>What a call of \<^verbatim>\<open>evaluate_weather_data\<close> does\<close>

lemma evaluate_empty:
  assumes "candidates self now wd = []"
  shows "evaluate_weather_data self now fault db wd = (Inr [], db)"
  using assms
  by (simp add: evaluate_weather_data_def evaluate_rules_eq commit_alerts_def)

lemma evaluate_ok:
  assumes "\<And>j. fault = Some j \<Longrightarrow> length (candidates self now wd) < j"
    and "candidates self now wd \<noteq> []"
  shows "evaluate_weather_data self now fault db wd =
     (Inr (persist_objects (next_id db + int (length (pending db)))
             (map (marked now db) (candidates self now wd))),
      db_commit now
        (db\<lparr>pending := pending db @
               map candidate.truncate (admitted now db (candidates self now wd))\<rparr>))"
proof -
  let ?cs = "candidates self now wd"
  have s: "save_alerts now fault 0 ?cs (db, []) =
      ((db\<lparr>pending := pending db @ map candidate.truncate (admitted now db ?cs)\<rparr>,
        [] @ map (marked now db) ?cs), None)"
    by (rule save_alerts_ok) (use assms(1) in auto)
  have f: "fault \<noteq> Some (length ?cs)" using assms(1) by auto
  have c: "length (filter (\<lambda>a. object_state a = Pending) (map (marked now db) ?cs)) =
           length (admitted now db ?cs)"
    by (rule count_pending_marked) (simp add: candidates_transient)
  show ?thesis
    using s f c assms(2)
    by (simp add: evaluate_weather_data_def evaluate_rules_eq commit_alerts_def)
qed

lemma evaluate_healthy:
  "candidates self now wd \<noteq> [] \<Longrightarrow>
   evaluate_weather_data self now None db wd =
     (Inr (persist_objects (next_id db + int (length (pending db)))
             (map (marked now db) (candidates self now wd))),
      db_commit now
        (db\<lparr>pending := pending db @
               map candidate.truncate (admitted now db (candidates self now wd))\<rparr>))"
  by (rule evaluate_ok) simp_all

lemma evaluate_faulty:
  assumes "fault = Some j" "j \<le> length (candidates self now wd)" "candidates self now wd \<noteq> []"
  shows "evaluate_weather_data self now fault db wd = (Inr (candidates self now wd), db_rollback db)"
proof (cases "j < length (candidates self now wd)")
  case True
  let ?cs = "candidates self now wd"
  have tr: "\<forall>a \<in> set ?cs. object_state a = Transient" by (simp add: candidates_transient)
  from save_alerts_fail [OF assms(1) _ _ tr, of 0 now db "[]"] True
  obtain p seen' where
    "save_alerts now fault 0 ?cs (db, []) = ((db\<lparr>pending := p\<rparr>, seen'), Some StoreError)"
    "expunge_objects seen' = ?cs"
    by (auto simp: expunge_objects_def)
  then show ?thesis
    by (simp add: evaluate_weather_data_def evaluate_rules_eq db_rollback_def)
next
  case False
  let ?cs = "candidates self now wd"
  from False have j: "j = length ?cs" using assms by simp
  have s: "save_alerts now fault 0 ?cs (db, []) =
      ((db\<lparr>pending := pending db @ map candidate.truncate (admitted now db ?cs)\<rparr>,
        [] @ map (marked now db) ?cs), None)"
    by (rule save_alerts_ok) (simp add: assms(1) j)
  have "expunge_objects (map (marked now db) ?cs) = ?cs"
  proof -
    have "expunge_objects (map (marked now db) cs) = cs"
      if "\<forall>a \<in> set cs. object_state a = Transient" for cs
      using that by (induction cs) (simp_all add: expunge_objects_def marked_def)
    then show ?thesis by (simp add: candidates_transient)
  qed
  then show ?thesis using s assms(1,3) j
    by (simp add: evaluate_weather_data_def evaluate_rules_eq commit_alerts_def db_rollback_def)
qed

text \<open>The three cases cover every call.\<close>

lemma evaluate_cases:
  obtains (empty) "candidates self now wd = []"
      "evaluate_weather_data self now fault db wd = (Inr [], db)"
    | (faulty) j where "fault = Some j" "j \<le> length (candidates self now wd)"
      "candidates self now wd \<noteq> []"
      "evaluate_weather_data self now fault db wd = (Inr (candidates self now wd), db_rollback db)"
    | (ok) "candidates self now wd \<noteq> []"
      "evaluate_weather_data self now fault db wd =
         (Inr (persist_objects (next_id db + int (length (pending db)))
                 (map (marked now db) (candidates self now wd))),
          db_commit now
            (db\<lparr>pending := pending db @
                   map candidate.truncate (admitted now db (candidates self now wd))\<rparr>))"
proof (cases "candidates self now wd = []")
  case True
  then show ?thesis using empty evaluate_empty by blast
next
  case ne: False
  show ?thesis
  proof (cases "\<exists>j. fault = Some j \<and> j \<le> length (candidates self now wd)")
    case True
    then show ?thesis using faulty evaluate_faulty ne by blast
  next
    case False
    then have "\<And>j. fault = Some j \<Longrightarrow> length (candidates self now wd) < j" by auto
    from evaluate_ok [OF this ne] show ?thesis using ok ne by blast
  qed
qed

lemma truncate_persist_objects [simp]:
  "map candidate.truncate (persist_objects i xs) = map candidate.truncate xs"
  by (induction xs arbitrary: i) simp_all

lemma evaluate_contents:
  "map_sum id (map candidate.truncate) (fst (evaluate_weather_data self now fault db wd)) =
   Inr (map candidate.truncate (candidates self now wd))"
  by (cases rule: evaluate_cases [of self now wd fault db]) (simp_all add: comp_def)

lemma evaluate_Inr: "\<exists>objs. fst (evaluate_weather_data self now fault db wd) = Inr objs"
  by (cases rule: evaluate_cases [of self now wd fault db]) simp_all

section \<open>Inserted rows\<close>

lemma truncate_insert_row [simp]: "candidate.truncate (insert_row now i c) = c"
  by (simp add: insert_row_def candidate.truncate_def)

lemma insert_row_fields [simp]:
  "is_active (insert_row now i c)" "alert_end (insert_row now i c) = None"
  "location_id (insert_row now i c) = location_id c"
  "alert_type (insert_row now i c) = alert_type c"
  "alert_start (insert_row now i c) = alert_start c"
  "created_at (insert_row now i c) = now"
  "alert_id (insert_row now i c) = i"
  by (simp_all add: insert_row_def)

lemma length_insert_rows [simp]: "length (insert_rows now i cs) = length cs"
  by (induction cs arbitrary: i) simp_all

lemma insert_rows_append:
  "insert_rows now i (xs @ ys) = insert_rows now i xs @ insert_rows now (i + int (length xs)) ys"
  by (induction xs arbitrary: i) (simp_all add: add.assoc)

lemma truncate_insert_rows: "map candidate.truncate (insert_rows now i cs) = cs"
  by (induction cs arbitrary: i) simp_all

lemma insert_rows_fresh:
  "list_all (\<lambda>x. is_active x \<and> alert_end x = None) (insert_rows now i cs)"
  by (induction cs arbitrary: i) simp_all

lemma insert_rows_ex:
  "list_ex (\<lambda>x. candidate.truncate x = c \<and> is_active x \<and> alert_end x = None)
     (insert_rows now i cs) \<longleftrightarrow> c \<in> set cs"
  by (induction cs arbitrary: i) auto

lemma insert_rows_count:
  "length (filter (\<lambda>x. is_active x \<and> location_id x = l \<and> alert_type x = t)
     (insert_rows now i cs)) =
   length (filter (\<lambda>c. location_id c = l \<and> alert_type c = t) cs)"
  by (induction cs arbitrary: i) simp_all

lemma insert_rows_member:
  "c \<in> set cs \<Longrightarrow>
   \<exists>x \<in> set (insert_rows now i cs). is_active x \<and> location_id x = location_id c \<and>
      alert_type x = alert_type c \<and> alert_start x = alert_start c"
  by (induction cs arbitrary: i) auto

lemma existing_alert_None_iff: "existing_alert now db c = None \<longleftrightarrow> \<not> suppressing now db c"
  by (auto simp: existing_alert_def suppressing_def find_None_iff list_ex_iff)

lemma suppressing_truncate:
  "candidate.truncate a = candidate.truncate b \<Longrightarrow> suppressing now db a = suppressing now db b"
proof -
  assume "candidate.truncate a = candidate.truncate b"
  then have "location_id (candidate.truncate a) = location_id (candidate.truncate b)"
    "alert_type (candidate.truncate a) = alert_type (candidate.truncate b)"
    by simp_all
  then show ?thesis by (simp add: suppressing_def)
qed

lemma alerts_tbl_commit [simp]:
  "alerts_tbl (db_commit now db) = alerts_tbl db @ insert_rows now (next_id db) (pending db)"
  by (simp add: db_commit_def)

lemma evaluate_rows:
  assumes "pending db = []"
  shows "alerts_tbl (snd (evaluate_weather_data self now None db wd)) =
         alerts_tbl db @
         insert_rows now (next_id db)
           (map candidate.truncate (admitted now db (candidates self now wd)))"
proof (cases "candidates self now wd = []")
  case True
  then show ?thesis by (simp add: evaluate_empty)
next
  case False
  then show ?thesis using assms by (simp add: evaluate_healthy)
qed

lemma evaluate_pending:
  assumes "pending db = []"
  shows "pending (snd (evaluate_weather_data self now None db wd)) = []"
proof (cases "candidates self now wd = []")
  case True
  then show ?thesis using assms by (simp add: evaluate_empty)
next
  case False
  then show ?thesis by (simp add: evaluate_healthy db_commit_def)
qed

lemma unique_type_count:
  assumes "distinct (map alert_type cs)" "c \<in> set cs"
  shows "length (filter (\<lambda>x. alert_type x = alert_type c) cs) = 1"
  using assms
proof (induction cs)
  case Nil
  then show ?case by simp
next
  case (Cons a cs)
  show ?case
  proof (cases "c = a")
    case True
    have "alert_type a \<notin> set (map alert_type cs)"
      using Cons.prems(1) by simp
    then have "\<forall>x \<in> set cs. alert_type x \<noteq> alert_type a"
      by (metis image_eqI set_map)
    then have "filter (\<lambda>x. alert_type x = alert_type a) cs = []"
      by (simp add: filter_empty_conv)
    with True show ?thesis by simp
  next
    case False
    with Cons.prems have "c \<in> set cs" "alert_type a \<noteq> alert_type c" by auto
    with Cons show ?thesis by simp
  qed
qed

section \<open>Duplicate suppression\<close>

lemma active_count_append:
  "alerts_tbl db' = alerts_tbl db @ insert_rows now i (map candidate.truncate cs) \<Longrightarrow>
   active_count db' l t =
   active_count db l t + length (filter (\<lambda>c. location_id c = l \<and> alert_type c = t) cs)"
  by (simp add: active_count_def insert_rows_count filter_map comp_def)

lemma active_count_zero_not_suppressing:
  "active_count db (location_id c) (alert_type c) = 0 \<Longrightarrow> \<not> suppressing now db c"
  by (auto simp: active_count_def suppressing_def list_ex_iff filter_empty_conv)

lemma admitted_count_one:
  assumes "c \<in> set (candidates self now wd)" "\<not> suppressing now db c"
  shows "length (filter (\<lambda>x. location_id x = location_id c \<and> alert_type x = alert_type c)
           (admitted now db (candidates self now wd))) = 1"
proof -
  let ?cs = "admitted now db (candidates self now wd)"
  have c: "c \<in> set ?cs"
    using assms by (simp add: admitted_def existing_alert_None_iff)
  have d: "distinct (map alert_type ?cs)"
    unfolding admitted_def by (rule distinct_map_filter) (rule candidates_distinct_types)
  have "\<forall>x \<in> set ?cs. location_id x = location_id c"
    using candidates_fields[of _ self now wd] assms(1) by (auto simp: admitted_def)
  then have "filter (\<lambda>x. location_id x = location_id c \<and> alert_type x = alert_type c) ?cs =
             filter (\<lambda>x. alert_type x = alert_type c) ?cs"
    by (intro filter_cong) auto
  then show ?thesis using unique_type_count[OF d c] by simp
qed

lemma admitted_again_none:
  assumes c: "c \<in> set (candidates self now wd)"
    and adm: "c \<in> set (admitted now db (candidates self now wd))"
    and rows: "alerts_tbl db1 =
               alerts_tbl db @
               insert_rows now i (map candidate.truncate (admitted now db (candidates self now wd)))"
    and win: "now' - hours 24 \<le> now"
  shows "filter (\<lambda>x. location_id x = location_id c \<and> alert_type x = alert_type c)
           (admitted now' db1 (candidates self now' wd)) = []"
proof -
  have "candidate.truncate c \<in> set (map candidate.truncate (admitted now db (candidates self now wd)))"
    using adm by simp
  from insert_rows_member[OF this, of now i]
  obtain x where x: "x \<in> set (alerts_tbl db1)" "is_active x" "location_id x = location_id c"
      "alert_type x = alert_type c" "alert_start x = alert_start c"
    using rows by auto
  have "alert_start c = now" using candidates_fields[OF c] by simp
  with x win have "suppressing now' db1 c'"
    if "location_id c' = location_id c" "alert_type c' = alert_type c" for c'
    using that by (auto simp: suppressing_def list_ex_iff)
  then show ?thesis
    by (auto simp: filter_empty_conv admitted_def existing_alert_None_iff)
qed

lemma suppressing_in_window:
  "list_all (\<lambda>x. alert_start x \<le> now) (alerts_tbl db) \<Longrightarrow>
   suppressing now db c \<longleftrightarrow> in_trailing_window now db c"
  by (auto simp: suppressing_def in_trailing_window_def list_ex_iff list_all_iff)

lemma returned_object_candidate:
  assumes "fst (evaluate_weather_data self now fault db wd) = Inr objs" "c \<in> set objs"
  obtains c0 where "c0 \<in> set (candidates self now wd)"
    "candidate.truncate c0 = candidate.truncate c"
proof -
  have "map candidate.truncate objs = map candidate.truncate (candidates self now wd)"
    using evaluate_contents [of self now fault db wd] assms(1) by simp
  then have "candidate.truncate c \<in> candidate.truncate ` set (candidates self now wd)"
    using assms(2) by (metis image_eqI set_map)
  then show ?thesis using that by auto
qed

lemma active_count_truncate:
  "candidate.truncate a = candidate.truncate b \<Longrightarrow>
   location_id a = location_id b \<and> alert_type a = alert_type b \<and> alert_start a = alert_start b"
  by (metis truncate_fields)

text \<open>
  C1. With a store that answers, and a session with nothing pending, a candidate of the
  observation is persisted (as a new active row, after the rows the store had) exactly
  when the store held no active alert of the same location and type that started no
  earlier than 24 hours before the evaluation; on a store whose alerts all started by the
  time of the evaluation, that is: none that started within the 24 hours up to the
  evaluation. Hence, for a location and type without active alert, evaluating the same
  observation a second time within 24 hours of the first leaves exactly one active alert
  of that location and type.
\<close>

theorem duplicate_suppression:
  "pending db = [] \<Longrightarrow>
   fst (evaluate_weather_data self now None db wd) = Inr cs \<Longrightarrow> c \<in> set cs \<Longrightarrow>
   (let db1 = snd (evaluate_weather_data self now None db wd);
        db2 = snd (evaluate_weather_data self now' None db1 wd)
    in take (length (alerts_tbl db)) (alerts_tbl db1) = alerts_tbl db \<and>
       (persisted db db1 c \<longleftrightarrow> \<not> suppressing now db c) \<and>
       (list_all (\<lambda>x. alert_start x \<le> now) (alerts_tbl db) \<longrightarrow>
          (persisted db db1 c \<longleftrightarrow> \<not> in_trailing_window now db c)) \<and>
       (now' - hours 24 \<le> now \<and> active_count db (location_id c) (alert_type c) = 0 \<longrightarrow>
          active_count db1 (location_id c) (alert_type c) = 1 \<and>
          active_count db2 (location_id c) (alert_type c) = 1))"
proof -
  assume p: "pending db = []"
    and r: "fst (evaluate_weather_data self now None db wd) = Inr cs"
    and c: "c \<in> set cs"
  define db1 where "db1 = snd (evaluate_weather_data self now None db wd)"
  define db2 where "db2 = snd (evaluate_weather_data self now' None db1 wd)"
  obtain c0 where c0: "c0 \<in> set (candidates self now wd)"
    and tr: "candidate.truncate c0 = candidate.truncate c"
    using returned_object_candidate [OF r c] by blast
  have eq: "location_id c0 = location_id c" "alert_type c0 = alert_type c"
    using active_count_truncate [OF tr] by simp_all
  have sup: "suppressing now db c0 = suppressing now db c"
    by (rule suppressing_truncate [OF tr])
  have rows1: "alerts_tbl db1 =
      alerts_tbl db @
      insert_rows now (next_id db)
        (map candidate.truncate (admitted now db (candidates self now wd)))"
    unfolding db1_def by (rule evaluate_rows [OF p])
  have p1: "pending db1 = []" unfolding db1_def by (rule evaluate_pending [OF p])
  have rows2: "alerts_tbl db2 =
      alerts_tbl db1 @
      insert_rows now' (next_id db1)
        (map candidate.truncate (admitted now' db1 (candidates self now' wd)))"
    unfolding db2_def by (rule evaluate_rows [OF p1])
  have A: "take (length (alerts_tbl db)) (alerts_tbl db1) = alerts_tbl db"
    by (simp add: rows1)
  have B: "persisted db db1 c \<longleftrightarrow> \<not> suppressing now db c"
  proof
    assume "persisted db db1 c"
    then have "candidate.truncate c \<in>
        set (map candidate.truncate (admitted now db (candidates self now wd)))"
      by (simp add: persisted_def rows1 insert_rows_ex)
    then obtain a where a: "a \<in> set (admitted now db (candidates self now wd))"
        "candidate.truncate a = candidate.truncate c"
      by auto
    then have "\<not> suppressing now db a" by (simp add: admitted_def existing_alert_None_iff)
    then show "\<not> suppressing now db c" using suppressing_truncate [OF a(2)] by simp
  next
    assume "\<not> suppressing now db c"
    then have "c0 \<in> set (admitted now db (candidates self now wd))"
      using c0 sup by (simp add: admitted_def existing_alert_None_iff)
    then have "candidate.truncate c \<in>
        set (map candidate.truncate (admitted now db (candidates self now wd)))"
      using tr by (metis image_eqI set_map)
    then show "persisted db db1 c"
      by (simp add: persisted_def rows1 insert_rows_ex)
  qed
  have B': "persisted db db1 c \<longleftrightarrow> \<not> in_trailing_window now db c"
    if "list_all (\<lambda>x. alert_start x \<le> now) (alerts_tbl db)"
    using B suppressing_in_window [OF that] by simp
  have C: "active_count db1 (location_id c) (alert_type c) = 1 \<and>
           active_count db2 (location_id c) (alert_type c) = 1"
    if win: "now' - hours 24 \<le> now"
      and z: "active_count db (location_id c) (alert_type c) = 0"
  proof -
    have z0: "active_count db (location_id c0) (alert_type c0) = 0" using z eq by simp
    have ns: "\<not> suppressing now db c0" by (rule active_count_zero_not_suppressing [OF z0])
    have one: "active_count db1 (location_id c0) (alert_type c0) = 1"
      using active_count_append [OF rows1] admitted_count_one [OF c0 ns] z0 by simp
    have adm: "c0 \<in> set (admitted now db (candidates self now wd))"
      using c0 ns by (simp add: admitted_def existing_alert_None_iff)
    have "active_count db2 (location_id c0) (alert_type c0) = 1"
      using active_count_append [OF rows2, of "location_id c0" "alert_type c0"]
        admitted_again_none [OF c0 adm rows1 win] one by simp
    with one eq show ?thesis by simp
  qed
  show ?thesis
    using A B B' C unfolding Let_def db1_def db2_def by blast
qed

subsection \<open>The example observation\<close>

lemma candidates_example:
  "candidates DEFAULT_THRESHOLDS now (observation loc t 46) = [heat_object loc now Transient]"
  by (simp add: candidates_def produced_def check_temperature_high_def check_temperature_low_def
        observation_def DEFAULT_THRESHOLDS_def heat_object_def)

lemma heat_object_state [simp]:
  "(heat_object loc t st)\<lparr>object_state := st'\<rparr> = heat_object loc t st'"
  "object_state (heat_object loc t st) = st"
  by (simp_all add: heat_object_def)

lemma heat_object_fields [simp]:
  "location_id (heat_object loc t st) = loc"
  "alert_type (heat_object loc t st) = ''temperatura_alta''"
  "alert_start (heat_object loc t st) = t"
  by (simp_all add: heat_object_def)

lemma insert_row_example:
  "insert_row now i (candidate.truncate (heat_object loc t st)) =
   (heat_alert i loc t)\<lparr>created_at := now\<rparr>"
  by (simp add: insert_row_def heat_alert_def heat_object_def candidate.truncate_def)

lemma truncate_heat:
  "candidate.truncate (heat_alert i loc t) = candidate.truncate (heat_object loc t st)"
  by (simp add: heat_alert_def heat_object_def candidate.truncate_def)

lemma heat_alert_fields [simp]:
  "is_active (heat_alert i loc t)" "alert_end (heat_alert i loc t) = None"
  "location_id (heat_alert i loc t) = loc" "alert_type (heat_alert i loc t) = ''temperatura_alta''"
  "alert_start (heat_alert i loc t) = t" "alert_id (heat_alert i loc t) = i"
  "created_at (heat_alert i loc t) = t"
  by (simp_all add: heat_alert_def)

lemma update_created_at_same [simp]: "(heat_alert i loc t)\<lparr>created_at := t\<rparr> = heat_alert i loc t"
  by (simp add: heat_alert_def)

lemma empty_store_fields [simp]:
  "pending empty_store = []" "alerts_tbl empty_store = []" "locations_tbl empty_store = []"
  "next_id empty_store = 1"
  by (simp_all add: empty_store_def)

lemma store_of_fields [simp]:
  "pending (store_of rows locs) = []" "alerts_tbl (store_of rows locs) = rows"
  "locations_tbl (store_of rows locs) = locs" "next_id (store_of rows locs) = 1 + int (length rows)"
  by (simp_all add: store_of_def)

lemma evaluate_example_first:
  "evaluate_weather_data DEFAULT_THRESHOLDS now None empty_store (observation 1 5 46) =
     (Inr [heat_object 1 now (Persistent 1)], store_of [heat_alert 1 1 now] [])"
  by (simp add: evaluate_healthy candidates_example admitted_def marked_def existing_alert_def
        insert_row_example)
     (simp add: empty_store_def store_of_def db_commit_def insert_row_example)

lemma evaluate_example_second:
  "evaluate_weather_data DEFAULT_THRESHOLDS 160 None (store_of [heat_alert 1 1 100] [])
       (observation 1 5 46) =
     (Inr [heat_object 1 160 Transient], store_of [heat_alert 1 1 100] [])"
  by (simp add: evaluate_healthy candidates_example admitted_def marked_def existing_alert_def
        hours_def)
     (simp add: store_of_def db_commit_def)

theorem duplicate_suppression_witness:
  "pending empty_store = [] \<and>
   fst (evaluate_weather_data DEFAULT_THRESHOLDS 100 None empty_store (observation 1 5 46)) =
     Inr [heat_object 1 100 (Persistent 1)] \<and>
   \<not> suppressing 100 empty_store (heat_object 1 100 (Persistent 1)) \<and>
   list_all (\<lambda>x. alert_start x \<le> 100) (alerts_tbl empty_store) \<and>
   \<not> in_trailing_window 100 empty_store (heat_object 1 100 (Persistent 1)) \<and>
   persisted empty_store
     (snd (evaluate_weather_data DEFAULT_THRESHOLDS 100 None empty_store (observation 1 5 46)))
     (heat_object 1 100 (Persistent 1)) \<and>
   (160::int) - hours 24 \<le> 100 \<and>
   active_count empty_store 1 ''temperatura_alta'' = 0 \<and>
   active_count
     (snd (evaluate_weather_data DEFAULT_THRESHOLDS 160 None
        (snd (evaluate_weather_data DEFAULT_THRESHOLDS 100 None empty_store (observation 1 5 46)))
        (observation 1 5 46))) 1 ''temperatura_alta'' = 1"
  using duplicate_suppression [of empty_store DEFAULT_THRESHOLDS 100 "observation 1 5 46"
      "[heat_object 1 100 (Persistent 1)]" "heat_object 1 100 (Persistent 1)" 160]
  by (simp add: evaluate_example_first evaluate_example_second Let_def persisted_def
        suppressing_def in_trailing_window_def active_count_def hours_def truncate_heat)

section \<open>What \<^verbatim>\<open>evaluate_weather_data\<close> returns\<close>

lemma suppressing_state [simp]:
  "suppressing now db (a\<lparr>object_state := s\<rparr>) = suppressing now db a"
  by (simp add: suppressing_def)

lemma length_persist_objects [simp]: "length (persist_objects i xs) = length xs"
  by (induction xs arbitrary: i) simp_all

lemma marked_None: "existing_alert now db a = None \<Longrightarrow> marked now db a = a\<lparr>object_state := Pending\<rparr>"
  by (simp add: marked_def)

lemma marked_Some: "existing_alert now db a = Some x \<Longrightarrow> marked now db a = a"
  by (simp add: marked_def)

lemma persist_marked_states:
  "\<forall>a \<in> set cs. object_state a = Transient \<Longrightarrow>
   ob \<in> set (persist_objects i (map (marked now db) cs)) \<Longrightarrow>
   (suppressing now db ob \<longrightarrow> object_state ob = Transient) \<and>
   (\<not> suppressing now db ob \<longrightarrow> (\<exists>n. object_state ob = Persistent n))"
proof (induction cs arbitrary: i)
  case Nil
  then show ?case by simp
next
  case (Cons a cs)
  show ?case
  proof (cases "existing_alert now db a")
    case None
    then have ns: "\<not> suppressing now db a" by (simp add: existing_alert_None_iff)
    from Cons.prems(2) None
    have "ob = a\<lparr>object_state := Persistent i\<rparr> \<or>
          ob \<in> set (persist_objects (i + 1) (map (marked now db) cs))"
      by (simp add: marked_None)
    then show ?thesis using Cons.IH [of "i + 1"] Cons.prems(1) ns by auto
  next
    case (Some x)
    then have s: "suppressing now db a" using existing_alert_None_iff [of now db a] by simp
    from Cons.prems(1,2) Some
    have "ob = a \<or> ob \<in> set (persist_objects i (map (marked now db) cs))"
      by (simp add: marked_Some)
    then show ?thesis using Cons.IH [of i] Cons.prems(1) s by auto
  qed
qed

lemma persist_marked_rows:
  "\<forall>a \<in> set cs. object_state a = Transient \<Longrightarrow>
   ob \<in> set (persist_objects i (map (marked now db) cs)) \<Longrightarrow> object_state ob = Persistent n \<Longrightarrow>
   \<exists>x \<in> set (insert_rows now i (map candidate.truncate (admitted now db cs))).
      alert_id x = n \<and> candidate.truncate x = candidate.truncate ob \<and> is_active x"
proof (induction cs arbitrary: i)
  case Nil
  then show ?case by simp
next
  case (Cons a cs)
  have tr: "\<forall>a \<in> set cs. object_state a = Transient" using Cons.prems(1) by simp
  show ?case
  proof (cases "existing_alert now db a")
    case None
    from Cons.prems(2) None
    consider "ob = a\<lparr>object_state := Persistent i\<rparr>"
      | "ob \<in> set (persist_objects (i + 1) (map (marked now db) cs))"
      by (auto simp: marked_None)
    then show ?thesis
    proof cases
      case 1
      then show ?thesis using None Cons.prems(3) by (simp add: admitted_def)
    next
      case 2
      from Cons.IH [OF tr 2 Cons.prems(3)] show ?thesis using None by (auto simp: admitted_def)
    qed
  next
    case (Some x)
    from Cons.prems Some
    have "ob \<in> set (persist_objects i (map (marked now db) cs))"
      by (auto simp: marked_Some)
    from Cons.IH [OF tr this Cons.prems(3)] show ?thesis using Some by (simp add: admitted_def)
  qed
qed

lemma evaluate_example_query_fails:
  "evaluate_weather_data DEFAULT_THRESHOLDS 100 (Some 0) empty_store (observation 1 5 46) =
     (Inr [heat_object 1 100 Transient], empty_store)"
  using evaluate_faulty [of "Some 0" 0 DEFAULT_THRESHOLDS 100 "observation 1 5 46" empty_store]
  by (simp add: candidates_example db_rollback_def empty_store_def)

lemma evaluate_example_commit_fails:
  "evaluate_weather_data DEFAULT_THRESHOLDS 100 (Some (Suc 0)) empty_store (observation 1 5 46) =
     (Inr [heat_object 1 100 Transient], empty_store)"
  using evaluate_faulty [of "Some 1" 1 DEFAULT_THRESHOLDS 100 "observation 1 5 46" empty_store]
  by (simp add: candidates_example db_rollback_def empty_store_def)

text \<open>
  C5, as the code has it. Every candidate that \<^verbatim>\<open>evaluate_weather_data\<close> returns starts at
  the evaluation time, the reading of \<^verbatim>\<open>datetime.now()\<close>; the timestamp of the observation
  is not read.
\<close>

theorem candidate_start_is_evaluation_time:
  "fst (evaluate_weather_data self now fault db wd) = Inr cs \<Longrightarrow> c \<in> set cs \<Longrightarrow>
   alert_start c = now"
proof -
  assume r: "fst (evaluate_weather_data self now fault db wd) = Inr cs" and c: "c \<in> set cs"
  obtain c0 where c0: "c0 \<in> set (candidates self now wd)"
    and tr: "candidate.truncate c0 = candidate.truncate c"
    using returned_object_candidate [OF r c] by blast
  have "alert_start c0 = now" using candidates_fields [OF c0] by simp
  then show ?thesis using active_count_truncate [OF tr] by simp
qed

theorem candidate_start_is_evaluation_time_witness:
  "fst (evaluate_weather_data DEFAULT_THRESHOLDS 100 None empty_store (observation 1 5 46)) =
     Inr [heat_object 1 100 (Persistent 1)] \<and>
   heat_object 1 100 (Persistent 1) \<in> set [heat_object 1 100 (Persistent 1)] \<and>
   alert_start (heat_object 1 100 (Persistent 1)) = 100"
  using candidate_start_is_evaluation_time [of DEFAULT_THRESHOLDS 100 None empty_store
      "observation 1 5 46" "[heat_object 1 100 (Persistent 1)]" "heat_object 1 100 (Persistent 1)"]
  by (simp add: evaluate_example_first)

text \<open>
  C5 as stated fails: an observation stamped 5 and evaluated at 100 gives a candidate that
  starts at 100.
\<close>

theorem candidate_start_counterexample:
  "wd_time (observation 1 5 46) = 5 \<and>
   map_sum id (map alert_start)
     (fst (evaluate_weather_data DEFAULT_THRESHOLDS 100 None empty_store (observation 1 5 46))) =
   Inr [100]"
  by (simp add: evaluate_example_first) (simp add: observation_def)

text \<open>
  C7, as the code has it. A store error is not propagated: whichever round trip raises,
  the call returns its list and never raises. When the query of a candidate or the commit
  raises, the session is rolled back: the store keeps the rows it had, nothing of the call
  is persisted, and every returned alert is transient. In every case a returned alert is
  persistent, with an id, only if the store holds its row.
\<close>

theorem evaluate_swallows_store_errors:
  "fst (evaluate_weather_data self now fault db wd) \<noteq> Inl e \<and>
   (fault = Some j \<and> fst (evaluate_weather_data self now fault db wd) = Inr objs \<and>
    objs \<noteq> [] \<and> j \<le> length objs \<longrightarrow>
      snd (evaluate_weather_data self now fault db wd) = db_rollback db \<and>
      alerts_tbl (snd (evaluate_weather_data self now fault db wd)) = alerts_tbl db \<and>
      list_all (\<lambda>a. object_state a = Transient) objs) \<and>
   (fst (evaluate_weather_data self now fault db wd) = Inr objs \<and> a \<in> set objs \<and>
    object_state a = Persistent n \<longrightarrow>
      list_ex (\<lambda>x. alert_id x = n \<and> candidate.truncate x = candidate.truncate a \<and> is_active x)
        (alerts_tbl (snd (evaluate_weather_data self now fault db wd))))"
proof (intro conjI impI)
  show "fst (evaluate_weather_data self now fault db wd) \<noteq> Inl e"
    using evaluate_Inr [of self now fault db wd] by auto
next
  assume h: "fault = Some j \<and> fst (evaluate_weather_data self now fault db wd) = Inr objs \<and>
    objs \<noteq> [] \<and> j \<le> length objs"
  have "evaluate_weather_data self now fault db wd = (Inr (candidates self now wd), db_rollback db)"
  proof (cases rule: evaluate_cases [of self now wd fault db])
    case empty
    with h show ?thesis by auto
  next
    case (faulty j')
    then show ?thesis by simp
  next
    case ok
    with h have "length objs = length (candidates self now wd)" by auto
    with h ok show ?thesis using evaluate_faulty [of fault j self now wd db] by simp
  qed
  with h have s: "snd (evaluate_weather_data self now fault db wd) = db_rollback db"
    and o: "objs = candidates self now wd" by simp_all
  show "snd (evaluate_weather_data self now fault db wd) = db_rollback db" by (rule s)
  show "alerts_tbl (snd (evaluate_weather_data self now fault db wd)) = alerts_tbl db"
    by (simp add: s db_rollback_def)
  show "list_all (\<lambda>a. object_state a = Transient) objs"
    by (simp add: o list_all_iff candidates_transient)
next
  assume h: "fst (evaluate_weather_data self now fault db wd) = Inr objs \<and> a \<in> set objs \<and>
    object_state a = Persistent n"
  show "list_ex (\<lambda>x. alert_id x = n \<and> candidate.truncate x = candidate.truncate a \<and> is_active x)
        (alerts_tbl (snd (evaluate_weather_data self now fault db wd)))"
  proof (cases rule: evaluate_cases [of self now wd fault db])
    case empty
    with h show ?thesis by auto
  next
    case (faulty j')
    with h have "a \<in> set (candidates self now wd)" by simp
    then have "object_state a = Transient" by (rule candidates_transient)
    with h show ?thesis by simp
  next
    case ok
    with h have "a \<in> set (persist_objects (next_id db + int (length (pending db)))
                   (map (marked now db) (candidates self now wd)))"
      by simp
    from persist_marked_rows [OF _ this, of n] h
    obtain x where "x \<in> set (insert_rows now (next_id db + int (length (pending db)))
          (map candidate.truncate (admitted now db (candidates self now wd))))"
      "alert_id x = n" "candidate.truncate x = candidate.truncate a" "is_active x"
      by (auto simp: candidates_transient)
    then show ?thesis using ok
      by (auto simp: list_ex_iff insert_rows_append)
  qed
qed

theorem evaluate_swallows_store_errors_witness:
  "fst (evaluate_weather_data DEFAULT_THRESHOLDS 100 (Some 1) empty_store (observation 1 5 46)) =
     Inr [heat_object 1 100 Transient] \<and>
   [heat_object 1 100 Transient] \<noteq> [] \<and>
   (1::nat) \<le> length [heat_object 1 100 Transient] \<and>
   snd (evaluate_weather_data DEFAULT_THRESHOLDS 100 (Some 1) empty_store (observation 1 5 46)) =
     db_rollback empty_store \<and>
   alerts_tbl
     (snd (evaluate_weather_data DEFAULT_THRESHOLDS 100 (Some 1) empty_store (observation 1 5 46))) =
     [] \<and>
   fst (evaluate_weather_data DEFAULT_THRESHOLDS 100 None empty_store (observation 1 5 46)) =
     Inr [heat_object 1 100 (Persistent 1)] \<and>
   object_state (heat_object 1 100 (Persistent 1)) = Persistent 1 \<and>
   alerts_tbl
     (snd (evaluate_weather_data DEFAULT_THRESHOLDS 100 None empty_store (observation 1 5 46))) =
     [heat_alert 1 1 100]"
  using evaluate_swallows_store_errors [of DEFAULT_THRESHOLDS 100 "Some 1" empty_store
      "observation 1 5 46" StoreError 1 "[heat_object 1 100 Transient]"
      "heat_object 1 100 Transient" 1]
    evaluate_swallows_store_errors [of DEFAULT_THRESHOLDS 100 None empty_store
      "observation 1 5 46" StoreError 1 "[heat_object 1 100 (Persistent 1)]"
      "heat_object 1 100 (Persistent 1)" 1]
  by (simp add: evaluate_example_commit_fails evaluate_example_first)

text \<open>
  C7 as stated fails: when the query for the one candidate raises, and when the commit
  raises, the call returns its list and no error reaches the caller, while nothing is
  persisted.
\<close>

theorem persistence_failure_counterexample:
  "fst (evaluate_weather_data DEFAULT_THRESHOLDS 100 (Some 0) empty_store (observation 1 5 46)) =
     Inr [heat_object 1 100 Transient] \<and>
   fst (evaluate_weather_data DEFAULT_THRESHOLDS 100 (Some 1) empty_store (observation 1 5 46)) =
     Inr [heat_object 1 100 Transient] \<and>
   alerts_tbl
     (snd (evaluate_weather_data DEFAULT_THRESHOLDS 100 (Some 0) empty_store (observation 1 5 46))) =
     [] \<and>
   alerts_tbl
     (snd (evaluate_weather_data DEFAULT_THRESHOLDS 100 (Some 1) empty_store (observation 1 5 46))) =
     []"
  by (simp add: evaluate_example_query_fails evaluate_example_commit_fails)

text \<open>
  C9, as the code has it. The list that \<^verbatim>\<open>evaluate_weather_data\<close> returns holds one
  object for every candidate of the observation, in order, those that the loop did not add
  to the session included, and the attributes the check functions gave them are the same
  for every store and every store error. The state of the objects is not: with a store
  that answers, the objects of the candidates that were persisted come back persistent,
  with the id of their row, and the others transient, so the returned list does tell which
  candidates were created.
\<close>

theorem evaluate_returns_every_candidate:
  "map_sum id (map candidate.truncate) (fst (evaluate_weather_data self now fault db wd)) =
     Inr (map candidate.truncate (candidates self now wd)) \<and>
   (fst (evaluate_weather_data self now None db wd) = Inr objs \<and> a \<in> set objs \<longrightarrow>
      (is_persistent a \<longleftrightarrow> \<not> suppressing now db a) \<and>
      (\<not> is_persistent a \<longrightarrow> object_state a = Transient))"
proof (intro conjI impI)
  show "map_sum id (map candidate.truncate) (fst (evaluate_weather_data self now fault db wd)) =
     Inr (map candidate.truncate (candidates self now wd))"
    by (rule evaluate_contents)
next
  assume h: "fst (evaluate_weather_data self now None db wd) = Inr objs \<and> a \<in> set objs"
  have "(suppressing now db a \<longrightarrow> object_state a = Transient) \<and>
        (\<not> suppressing now db a \<longrightarrow> (\<exists>n. object_state a = Persistent n))"
  proof (cases "candidates self now wd = []")
    case True
    with h show ?thesis by (auto simp: evaluate_empty)
  next
    case False
    with h have "a \<in> set (persist_objects (next_id db + int (length (pending db)))
                   (map (marked now db) (candidates self now wd)))"
      by (simp add: evaluate_healthy)
    from persist_marked_states [OF _ this] show ?thesis by (simp add: candidates_transient)
  qed
  then show "is_persistent a \<longleftrightarrow> \<not> suppressing now db a"
    and "\<not> is_persistent a \<Longrightarrow> object_state a = Transient"
    by (auto simp: is_persistent_def split: object_state.splits)
qed

theorem evaluate_returns_every_candidate_witness:
  "fst (evaluate_weather_data DEFAULT_THRESHOLDS 160 None (store_of [heat_alert 1 1 100] [])
         (observation 1 5 46)) = Inr [heat_object 1 160 Transient] \<and>
   heat_object 1 160 Transient \<in> set [heat_object 1 160 Transient] \<and>
   suppressing 160 (store_of [heat_alert 1 1 100] []) (heat_object 1 160 Transient) \<and>
   \<not> is_persistent (heat_object 1 160 Transient) \<and>
   map candidate.truncate (candidates DEFAULT_THRESHOLDS 160 (observation 1 5 46)) =
     [candidate.truncate (heat_object 1 160 Transient)]"
  using evaluate_returns_every_candidate [of DEFAULT_THRESHOLDS 160 None
      "store_of [heat_alert 1 1 100] []" "observation 1 5 46" "[heat_object 1 160 Transient]"
      "heat_object 1 160 Transient"]
  by (simp add: evaluate_example_second candidates_example is_persistent_def)

text \<open>
  C9 as stated fails: for the same observation, the list returned on the empty store holds
  a persistent alert with id 1, the list returned on a store with a suppressing alert a
  transient one.
\<close>

theorem returned_list_counterexample:
  "fst (evaluate_weather_data DEFAULT_THRESHOLDS 160 None empty_store (observation 1 5 46)) =
     Inr [heat_object 1 160 (Persistent 1)] \<and>
   fst (evaluate_weather_data DEFAULT_THRESHOLDS 160 None (store_of [heat_alert 1 1 100] [])
         (observation 1 5 46)) = Inr [heat_object 1 160 Transient] \<and>
   heat_object 1 160 (Persistent 1) \<noteq> heat_object 1 160 Transient"
  by (simp add: evaluate_example_first evaluate_example_second) (simp add: heat_object_def)

section \<open>Deactivation\<close>

lemma update_first_absent: "find P xs = None \<Longrightarrow> update_first P f xs = xs"
  by (induction xs) (auto split: if_splits)

lemma find_update_first:
  "find P xs = Some a \<Longrightarrow> P (f a) \<Longrightarrow> find P (update_first P f xs) = Some (f a)"
  by (induction xs) (auto split: if_splits)

lemma update_first_append:
  "find P xs = Some a \<Longrightarrow> update_first P f (xs @ ys) = update_first P f xs @ ys"
  by (induction xs) (auto split: if_splits)

lemma find_append_Some: "find P xs = Some a \<Longrightarrow> find P (xs @ ys) = Some a"
  by (induction xs) (auto split: if_splits)

lemma update_first_twice:
  "(\<And>x. P x \<Longrightarrow> P (f x)) \<Longrightarrow>
   update_first P g (update_first P f xs) = update_first P (\<lambda>x. g (f x)) xs"
  by (induction xs) auto

lemma update_first_all:
  "list_all Q xs \<Longrightarrow> (\<And>x. Q (f x)) \<Longrightarrow> list_all Q (update_first P f xs)"
  by (induction xs) auto

lemma find_alert_id: "find (\<lambda>x. alert_id x = aid) xs = Some a \<Longrightarrow> alert_id a = aid"
  by (induction xs) (auto split: if_splits)

lemma find_None_alert_id:
  "find (\<lambda>x. alert_id x = aid) xs = None \<longleftrightarrow> aid \<notin> alert_id ` set xs"
  by (auto simp: find_None_iff)

text \<open>The row as \<^verbatim>\<open>deactivate_alert\<close> leaves it.\<close>

lemma deactivate_found:
  assumes "find (\<lambda>x. alert_id x = aid) (alerts_tbl db) = Some a"
  shows "deactivate_alert now None db aid =
     (Inr True,
      db_commit now
        (db\<lparr>alerts_tbl :=
              update_first (\<lambda>x. alert_id x = aid)
                (\<lambda>x. x\<lparr>is_active := False, alert_end := Some now\<rparr>) (alerts_tbl db)\<rparr>))"
  using assms by (simp add: deactivate_alert_def)

lemma deactivate_found_row:
  assumes "find (\<lambda>x. alert_id x = aid) (alerts_tbl db) = Some a"
    and "fst (deactivate_alert now fault db aid) = Inr True"
  shows "find (\<lambda>x. alert_id x = aid) (alerts_tbl (snd (deactivate_alert now fault db aid))) =
         Some (a\<lparr>is_active := False, alert_end := Some now\<rparr>)"
proof -
  have f: "find (\<lambda>x. alert_id x = aid)
             (update_first (\<lambda>x. alert_id x = aid)
                (\<lambda>x. x\<lparr>is_active := False, alert_end := Some now\<rparr>) (alerts_tbl db)) =
           Some (a\<lparr>is_active := False, alert_end := Some now\<rparr>)"
    using find_alert_id [OF assms(1)] by (intro find_update_first [OF assms(1)]) simp
  show ?thesis
    using assms f by (auto simp: deactivate_alert_def find_append_Some split: if_splits)
qed

lemma deactivate_absent:
  assumes "find (\<lambda>x. alert_id x = aid) (alerts_tbl db) = None"
  shows "fst (deactivate_alert now fault db aid) = Inr False"
    and "alerts_tbl (snd (deactivate_alert now fault db aid)) = alerts_tbl db"
    and "pending db = [] \<Longrightarrow> snd (deactivate_alert now fault db aid) = db"
  using assms by (simp_all add: deactivate_alert_def db_rollback_def)

lemma deactivate_True_found:
  "fst (deactivate_alert now fault db aid) = Inr True \<Longrightarrow>
   \<exists>a. find (\<lambda>x. alert_id x = aid) (alerts_tbl db) = Some a"
  by (auto simp: deactivate_alert_def split: if_splits option.splits)

section \<open>The lifecycle invariant\<close>

lemma evaluate_new_rows:
  "\<exists>p. alerts_tbl (snd (evaluate_weather_data self now fault db wd)) =
        alerts_tbl db @ insert_rows now (next_id db) p"
proof (cases rule: evaluate_cases [of self now wd fault db])
  case empty
  have "alerts_tbl db = alerts_tbl db @ insert_rows now (next_id db) []" by simp
  with empty show ?thesis by (metis snd_conv)
next
  case (faulty j)
  have "alerts_tbl (db_rollback db) = alerts_tbl db @ insert_rows now (next_id db) []"
    by (simp add: db_rollback_def)
  with faulty show ?thesis by (metis snd_conv)
next
  case ok
  then show ?thesis by auto
qed

lemma deactivate_rows:
  "alerts_tbl (snd (deactivate_alert now fault db aid)) = alerts_tbl db \<or>
   alerts_tbl (snd (deactivate_alert now fault db aid)) =
     update_first (\<lambda>x. alert_id x = aid) (\<lambda>x. x\<lparr>is_active := False, alert_end := Some now\<rparr>)
       (alerts_tbl db) @ insert_rows now (next_id db) (pending db)"
  by (auto simp: deactivate_alert_def db_rollback_def split: option.splits)

lemma insert_rows_lifecycle: "list_all lifecycle_ok (insert_rows now i cs)"
  by (induction cs arbitrary: i) (simp_all add: lifecycle_ok_def)

lemma apply_op_lifecycle:
  assumes "list_all lifecycle_ok (alerts_tbl db)"
  shows "list_all lifecycle_ok (alerts_tbl (apply_op db op))"
proof (cases op)
  case (Evaluate self now fault wd)
  obtain p where "alerts_tbl (apply_op db op) = alerts_tbl db @ insert_rows now (next_id db) p"
    using evaluate_new_rows [of self now fault db wd] Evaluate by auto
  then show ?thesis using assms by (simp add: insert_rows_lifecycle)
next
  case (Deactivate now fault aid)
  have "list_all lifecycle_ok
          (update_first (\<lambda>x. alert_id x = aid)
             (\<lambda>x. x\<lparr>is_active := False, alert_end := Some now\<rparr>) (alerts_tbl db))"
    using assms by (rule update_first_all) (simp add: lifecycle_ok_def)
  then show ?thesis
    using deactivate_rows [of now fault db aid] assms Deactivate
    by (auto simp: insert_rows_lifecycle)
qed

lemma run_ops_lifecycle:
  "list_all lifecycle_ok (alerts_tbl db) \<Longrightarrow> list_all lifecycle_ok (alerts_tbl (run_ops ops db))"
  unfolding run_ops_def
  by (induction ops arbitrary: db) (simp_all add: apply_op_lifecycle)

lemma deactivate_example:
  "deactivate_alert now None (store_of [heat_alert 1 1 100] []) 1 =
     (Inr True, store_of [(heat_alert 1 1 100)\<lparr>is_active := False, alert_end := Some now\<rparr>] [])"
  by (simp add: deactivate_alert_def store_of_def db_commit_def)

lemma deactivate_example_again:
  "deactivate_alert now None
       (store_of [(heat_alert 1 1 100)\<lparr>is_active := False, alert_end := Some t\<rparr>] []) 1 =
     (Inr True, store_of [(heat_alert 1 1 100)\<lparr>is_active := False, alert_end := Some now\<rparr>] [])"
  by (simp add: deactivate_alert_def store_of_def db_commit_def)

text \<open>
  C3. Every run of the operations of the engine (evaluations and deactivations, with or
  without store errors) keeps the invariant that an alert is active exactly when it has no
  end timestamp. The rows an evaluation adds are active and have no end timestamp; the
  row a successful deactivation finds is afterwards inactive and ends at the time of the
  deactivation.
\<close>

theorem alert_lifecycle_invariant:
  "(list_all lifecycle_ok (alerts_tbl db) \<longrightarrow>
      list_all lifecycle_ok (alerts_tbl (run_ops ops db))) \<and>
   list_all (\<lambda>x. is_active x \<and> alert_end x = None)
     (drop (length (alerts_tbl db))
        (alerts_tbl (snd (evaluate_weather_data self now fault db wd)))) \<and>
   (fst (deactivate_alert now fault db aid) = Inr True \<longrightarrow>
      map_option (\<lambda>x. (is_active x, alert_end x))
        (find (\<lambda>x. alert_id x = aid) (alerts_tbl (snd (deactivate_alert now fault db aid)))) =
      Some (False, Some now))"
proof (intro conjI impI)
  assume "list_all lifecycle_ok (alerts_tbl db)"
  then show "list_all lifecycle_ok (alerts_tbl (run_ops ops db))"
    by (rule run_ops_lifecycle)
next
  obtain p where "alerts_tbl (snd (evaluate_weather_data self now fault db wd)) =
      alerts_tbl db @ insert_rows now (next_id db) p"
    using evaluate_new_rows by blast
  then show "list_all (\<lambda>x. is_active x \<and> alert_end x = None)
     (drop (length (alerts_tbl db))
        (alerts_tbl (snd (evaluate_weather_data self now fault db wd))))"
    by (simp add: insert_rows_fresh)
next
  assume t: "fst (deactivate_alert now fault db aid) = Inr True"
  then obtain a where "find (\<lambda>x. alert_id x = aid) (alerts_tbl db) = Some a"
    using deactivate_True_found by blast
  from deactivate_found_row [OF this t]
  show "map_option (\<lambda>x. (is_active x, alert_end x))
        (find (\<lambda>x. alert_id x = aid) (alerts_tbl (snd (deactivate_alert now fault db aid)))) =
      Some (False, Some now)"
    by simp
qed

theorem alert_lifecycle_invariant_witness:
  "list_all lifecycle_ok (alerts_tbl empty_store) \<and>
   alerts_tbl (run_ops [Evaluate DEFAULT_THRESHOLDS 100 None (observation 1 5 46),
                        Deactivate 200 None 1] empty_store) =
     [(heat_alert 1 1 100)\<lparr>is_active := False, alert_end := Some 200\<rparr>] \<and>
   list_all lifecycle_ok
     (alerts_tbl (run_ops [Evaluate DEFAULT_THRESHOLDS 100 None (observation 1 5 46),
                           Deactivate 200 None 1] empty_store)) \<and>
   fst (deactivate_alert 200 None (store_of [heat_alert 1 1 100] []) 1) = Inr True \<and>
   map_option (\<lambda>x. (is_active x, alert_end x))
     (find (\<lambda>x. alert_id x = 1)
        (alerts_tbl (snd (deactivate_alert 200 None (store_of [heat_alert 1 1 100] []) 1)))) =
     Some (False, Some 200)"
  using alert_lifecycle_invariant [of empty_store
      "[Evaluate DEFAULT_THRESHOLDS 100 None (observation 1 5 46), Deactivate 200 None 1]"
      DEFAULT_THRESHOLDS 100 None "observation 1 5 46" 1]
    alert_lifecycle_invariant [of "store_of [heat_alert 1 1 100] []" "[]"
      DEFAULT_THRESHOLDS 200 None "observation 1 5 46" 1]
  by (simp add: run_ops_def evaluate_example_first deactivate_example)

text \<open>
  C4, as the code has it. Deactivating an existing alert a second time succeeds again and
  stamps the end timestamp again: after the second call the alert is inactive and ends at
  the time of the second call. The second call leaves the state as the first left it
  only when both are made at the same clock reading.
\<close>

theorem deactivate_twice_restamps:
  "find (\<lambda>x. alert_id x = aid) (alerts_tbl db) = Some a \<Longrightarrow>
   (let r1 = deactivate_alert now1 None db aid;
        r2 = deactivate_alert now2 None (snd r1) aid
    in fst r1 = Inr True \<and> fst r2 = Inr True \<and>
       find (\<lambda>x. alert_id x = aid) (alerts_tbl (snd r1)) =
         Some (a\<lparr>is_active := False, alert_end := Some now1\<rparr>) \<and>
       find (\<lambda>x. alert_id x = aid) (alerts_tbl (snd r2)) =
         Some (a\<lparr>is_active := False, alert_end := Some now2\<rparr>) \<and>
       (snd r2 = snd r1 \<longleftrightarrow> now2 = now1))"
proof -
  assume a: "find (\<lambda>x. alert_id x = aid) (alerts_tbl db) = Some a"
  define r1 where "r1 = deactivate_alert now1 None db aid"
  define r2 where "r2 = deactivate_alert now2 None (snd r1) aid"
  let ?P = "\<lambda>x. alert_id x = aid"
  let ?f = "\<lambda>t x. x\<lparr>is_active := False, alert_end := Some t\<rparr>"
  have 1: "fst r1 = Inr True" unfolding r1_def using a by (simp add: deactivate_found)
  have f1: "find ?P (alerts_tbl (snd r1)) = Some (?f now1 a)"
    unfolding r1_def using deactivate_found_row [OF a] 1 r1_def by simp
  have 2: "fst r2 = Inr True" unfolding r2_def using f1 by (simp add: deactivate_found)
  have f2': "find ?P (alerts_tbl (snd r2)) = Some (?f now2 (?f now1 a))"
    unfolding r2_def using deactivate_found_row [OF f1] 2 r2_def by simp
  then have f2: "find ?P (alerts_tbl (snd r2)) = Some (?f now2 a)" by simp
  have s1: "snd r1 = db_commit now1 (db\<lparr>alerts_tbl := update_first ?P (?f now1) (alerts_tbl db)\<rparr>)"
    unfolding r1_def using a by (simp add: deactivate_found)
  have s2: "snd r2 =
      db_commit now2 ((snd r1)\<lparr>alerts_tbl := update_first ?P (?f now2) (alerts_tbl (snd r1))\<rparr>)"
    unfolding r2_def using f1 by (simp add: deactivate_found)
  have p1: "pending (snd r1) = []" by (simp add: s1 db_commit_def)
  have same: "snd r2 = snd r1" if "now2 = now1"
  proof -
    have "find ?P (update_first ?P (?f now1) (alerts_tbl db)) = Some (?f now1 a)"
      using find_alert_id [OF a] by (intro find_update_first [OF a]) simp
    then have "update_first ?P (?f now1) (alerts_tbl (snd r1)) =
               update_first ?P (?f now1) (update_first ?P (?f now1) (alerts_tbl db)) @
               insert_rows now1 (next_id db) (pending db)"
      by (simp add: s1 update_first_append)
    also have "update_first ?P (?f now1) (update_first ?P (?f now1) (alerts_tbl db)) =
               update_first ?P (\<lambda>x. ?f now1 (?f now1 x)) (alerts_tbl db)"
      by (rule update_first_twice) simp
    also have "\<dots> = update_first ?P (?f now1) (alerts_tbl db)" by simp
    finally have "update_first ?P (?f now1) (alerts_tbl (snd r1)) = alerts_tbl (snd r1)"
      by (simp add: s1)
    then show ?thesis using that p1 by (simp add: s2 db_commit_def)
  qed
  have diff: "now2 = now1" if "snd r2 = snd r1"
  proof -
    have "Some (?f now2 a) = Some (?f now1 a)" using f1 f2 that by simp
    then have "alert_end (?f now2 a) = alert_end (?f now1 a)" by (metis option.inject)
    then show ?thesis by simp
  qed
  show ?thesis
    using 1 2 f1 f2 same diff unfolding Let_def r1_def r2_def by blast
qed

theorem deactivate_twice_restamps_witness:
  "find (\<lambda>x. alert_id x = 1) (alerts_tbl (store_of [heat_alert 1 1 100] [])) =
     Some (heat_alert 1 1 100) \<and>
   fst (deactivate_alert 300 None
          (snd (deactivate_alert 200 None (store_of [heat_alert 1 1 100] []) 1)) 1) = Inr True \<and>
   find (\<lambda>x. alert_id x = 1)
     (alerts_tbl (snd (deactivate_alert 300 None
          (snd (deactivate_alert 200 None (store_of [heat_alert 1 1 100] []) 1)) 1))) =
     Some ((heat_alert 1 1 100)\<lparr>is_active := False, alert_end := Some 300\<rparr>)"
  using deactivate_twice_restamps [of 1 "store_of [heat_alert 1 1 100] []" "heat_alert 1 1 100"
      200 300]
  by (simp add: deactivate_example deactivate_example_again)

text \<open>
  C4 as stated fails: an alert deactivated at 200 and again at 300 ends at 300, not at
  200.
\<close>

theorem deactivate_first_wins_counterexample:
  "map alert_end
     (alerts_tbl (snd (deactivate_alert 200 None (store_of [heat_alert 1 1 100] []) 1))) =
     [Some 200] \<and>
   map alert_end
     (alerts_tbl (snd (deactivate_alert 300 None
        (snd (deactivate_alert 200 None (store_of [heat_alert 1 1 100] []) 1)) 1))) =
     [Some 300] \<and>
   snd (deactivate_alert 300 None
        (snd (deactivate_alert 200 None (store_of [heat_alert 1 1 100] []) 1)) 1) \<noteq>
   snd (deactivate_alert 200 None (store_of [heat_alert 1 1 100] []) 1)"
  by (simp add: deactivate_example deactivate_example_again)
     (simp add: store_of_def heat_alert_def)

text \<open>
  C6. For an alert id that no row of the store has, \<^verbatim>\<open>deactivate_alert\<close> returns
  \<^verbatim>\<open>False\<close>, which the route turns into the 404 response, and the store keeps its rows
  (the whole session is unchanged when nothing was pending); this holds with and without
  store errors. For an id that a row has, and a store that answers, it returns \<^verbatim>\<open>True\<close>
  and the route reports success.
\<close>

theorem deactivate_nonexistent_not_found:
  "(aid \<notin> alert_id ` set (alerts_tbl db) \<longrightarrow>
      fst (deactivate_alert now fault db aid) = Inr False \<and>
      fst (router_deactivate_alert now fault db aid) = HTTPException 404 ''Alerta no encontrada'' \<and>
      alerts_tbl (snd (deactivate_alert now fault db aid)) = alerts_tbl db \<and>
      (pending db = [] \<longrightarrow> snd (deactivate_alert now fault db aid) = db)) \<and>
   (aid \<in> alert_id ` set (alerts_tbl db) \<longrightarrow>
      fst (deactivate_alert now None db aid) = Inr True \<and>
      fst (router_deactivate_alert now None db aid) =
        APIResponse True (FMessage ''Alerta '' aid '' desactivada exitosamente''))"
proof (intro conjI impI)
  assume "aid \<notin> alert_id ` set (alerts_tbl db)"
  then have n: "find (\<lambda>x. alert_id x = aid) (alerts_tbl db) = None"
    by (simp add: find_None_alert_id)
  show f: "fst (deactivate_alert now fault db aid) = Inr False"
    by (rule deactivate_absent(1) [OF n])
  show "fst (router_deactivate_alert now fault db aid) = HTTPException 404 ''Alerta no encontrada''"
    using f by (cases "deactivate_alert now fault db aid") (simp add: router_deactivate_alert_def)
  show "alerts_tbl (snd (deactivate_alert now fault db aid)) = alerts_tbl db"
    by (rule deactivate_absent(2) [OF n])
  show "snd (deactivate_alert now fault db aid) = db" if "pending db = []"
    using that by (rule deactivate_absent(3) [OF n])
next
  assume "aid \<in> alert_id ` set (alerts_tbl db)"
  then obtain a where a: "find (\<lambda>x. alert_id x = aid) (alerts_tbl db) = Some a"
    using find_None_alert_id [of aid "alerts_tbl db"] by (cases "find (\<lambda>x. alert_id x = aid) (alerts_tbl db)") auto
  show t: "fst (deactivate_alert now None db aid) = Inr True"
    by (simp add: deactivate_found [OF a])
  show "fst (router_deactivate_alert now None db aid) =
        APIResponse True (FMessage ''Alerta '' aid '' desactivada exitosamente'')"
    using t by (cases "deactivate_alert now None db aid") (simp add: router_deactivate_alert_def)
qed

theorem deactivate_nonexistent_not_found_witness:
  "(7::int) \<notin> alert_id ` set (alerts_tbl (store_of [heat_alert 1 1 100] [])) \<and>
   fst (router_deactivate_alert 200 None (store_of [heat_alert 1 1 100] []) 7) =
     HTTPException 404 ''Alerta no encontrada'' \<and>
   pending (store_of [heat_alert 1 1 100] []) = [] \<and>
   snd (deactivate_alert 200 None (store_of [heat_alert 1 1 100] []) 7) =
     store_of [heat_alert 1 1 100] [] \<and>
   (1::int) \<in> alert_id ` set (alerts_tbl (store_of [heat_alert 1 1 100] [])) \<and>
   fst (deactivate_alert 200 None (store_of [heat_alert 1 1 100] []) 1) = Inr True"
  using deactivate_nonexistent_not_found [of 7 "store_of [heat_alert 1 1 100] []" 200 None]
    deactivate_nonexistent_not_found [of 1 "store_of [heat_alert 1 1 100] []" 200 None]
  by simp

section \<open>Queries\<close>

lemma get_active_alerts_example:
  "get_active_alerts None (store_of [heat_alert 1 0 100, heat_alert 2 1 200] []) (Some 0) =
     Inr [heat_alert 2 1 200, heat_alert 1 0 100]"
  "get_active_alerts None (store_of [heat_alert 1 0 100, heat_alert 2 1 200] []) (Some 1) =
     Inr [heat_alert 2 1 200]"
  by (simp_all add: get_active_alerts_def)

text \<open>
  C10. With a store that answers, \<^verbatim>\<open>get_active_alerts\<close> called with location id 0
  returns what it returns without location id, the active alerts of all locations; called
  with a positive location id it returns the active alerts of that location.
\<close>

theorem get_active_alerts_location_zero:
  "get_active_alerts None db (Some 0) = get_active_alerts None db None \<and>
   map_sum id mset (get_active_alerts None db (Some 0)) =
     Inr (mset (filter is_active (alerts_tbl db))) \<and>
   (0 < n \<longrightarrow>
      map_sum id mset (get_active_alerts None db (Some n)) =
        Inr (mset (filter (\<lambda>x. is_active x \<and> location_id x = n) (alerts_tbl db))))"
  by (auto simp: get_active_alerts_def Let_def intro!: filter_cong arg_cong [where f = mset])

theorem get_active_alerts_location_zero_witness:
  "get_active_alerts None (store_of [heat_alert 1 0 100, heat_alert 2 1 200] []) (Some 0) =
     Inr [heat_alert 2 1 200, heat_alert 1 0 100] \<and>
   get_active_alerts None (store_of [heat_alert 1 0 100, heat_alert 2 1 200] []) None =
     Inr [heat_alert 2 1 200, heat_alert 1 0 100] \<and>
   (0::int) < 1 \<and>
   get_active_alerts None (store_of [heat_alert 1 0 100, heat_alert 2 1 200] []) (Some 1) =
     Inr [heat_alert 2 1 200]"
  using get_active_alerts_location_zero
    [of "store_of [heat_alert 1 0 100, heat_alert 2 1 200] []" 1]
  by (simp add: get_active_alerts_example)

section \<open>The most affected location\<close>






















end
